theory Spec2Isabelle
  imports Main "HOL-Library.AList"
begin

section \<open>Cachier 1.3.1: a localStorage wrapper with typed values and expiry\<close>

text \<open>
  The module of \<^verbatim>\<open>cachier-1.3.1.js\<close> is a function of two collaborators,
  \<^verbatim>\<open>(function(window, Json, undefined) { ... }(window, JSON))\<close>, and it reads the clock.
  The embedding keeps that shape: the collaborators are fields of an environment record,
  the contents of \<^verbatim>\<open>window.localStorage\<close> are threaded through every operation, and the
  clock reading of a call is an argument of the call.
\<close>

subsection \<open>JavaScript values\<close>

text \<open>
  The values a caller can hand to \<^verbatim>\<open>setItem\<close>. Numbers are IEEE doubles in JavaScript; the
  data model leaves their carrier \<open>'n\<close> open and takes the two conversions the module
  applies to them (\<^verbatim>\<open>data.toString()\<close> and \<^verbatim>\<open>Number(data)\<close>) from the environment.
  A function is kept as its source text, a symbol as its description; arrays are dense and
  objects are lists of own enumerable properties in enumeration order. Strings are lists of
  8-bit characters. \<^verbatim>\<open>null\<close> is of type \<^verbatim>\<open>"object"\<close>; symbols stand for the kinds of value that
  are none of those the module names.
\<close>

datatype 'n jsval =
    JUndefined
  | JNull
  | JBool bool
  | JNum 'n
  | JStr string
  | JSymbol string
  | JFun string
  | JArr "'n jsval list"
  | JObj "(string \<times> 'n jsval) list"

text \<open>What a call can raise.\<close>

datatype exn = TypeError | SyntaxError | QuotaExceededError | OtherError string

text \<open>The \<^verbatim>\<open>typeof\<close> operator.\<close>

fun typeof :: "'n jsval \<Rightarrow> string" where
  "typeof JUndefined = ''undefined''"
| "typeof JNull = ''object''"
| "typeof (JBool b) = ''boolean''"
| "typeof (JNum n) = ''number''"
| "typeof (JStr s) = ''string''"
| "typeof (JSymbol d) = ''symbol''"
| "typeof (JFun f) = ''function''"
| "typeof (JArr xs) = ''object''"
| "typeof (JObj ps) = ''object''"

subsection \<open>Integer-valued numbers: the clock, the TTL and the expiry\<close>

text \<open>
  Time values (\<^verbatim>\<open>getTime()\<close>, the TTL in milliseconds, the stored expiry) are integer-valued
  doubles. On the safe integers, those of absolute value below \<open>2^53\<close>, the arithmetic of
  doubles is exact, \<^verbatim>\<open>toString\<close> writes all the decimal digits and \<^verbatim>\<open>parseInt\<close> reads them
  back; there the numbers of the code are the integers, and they are modelled as \<open>int\<close>.
  \<^verbatim>\<open>parseInt\<close> may also answer \<^verbatim>\<open>NaN\<close>: a result of it is an \<open>int option\<close>, \<open>None\<close> being
  \<^verbatim>\<open>NaN\<close>.

  Beyond the safe integers the code and the functions of this section part: a sum or a
  difference is rounded to the nearest double, \<^verbatim>\<open>toString\<close> writes the shortest digits that
  read back as the same double, in exponent notation from \<open>10^21\<close> on (of which
  \<^verbatim>\<open>parseInt\<close> reads the digits before the point), and \<^verbatim>\<open>parseInt\<close> answers the double
  nearest to the integer it has read. The functions below are exact on all of \<open>int\<close>;
  every property that rests on the value of a clock reading, a TTL or an expiry is
  stated for safe integers (\<open>safe_integer\<close> and \<open>clock_reading\<close> below), where the two
  agree.
\<close>

type_synonym jsint = "int option"

definition digit_char :: "nat \<Rightarrow> char" where
  "digit_char d = char_of (48 + d)"

text \<open>The decimal digits of an integer that is not negative.\<close>

function digits :: "int \<Rightarrow> string" where
  "digits n =
     (if n < 10 then [digit_char (nat n)] else digits (n div 10) @ [digit_char (nat (n mod 10))])"
  by pat_completeness auto

termination digits
  by (relation "measure nat") auto

declare digits.simps [simp del]

text \<open>\<^verbatim>\<open>Number.prototype.toString\<close> on a safe integer: its decimal digits.\<close>

definition int_toString :: "int \<Rightarrow> string" where
  "int_toString i = (if i < 0 then CHR ''-'' # digits (- i) else digits i)"

definition jsint_toString :: "jsint \<Rightarrow> string" where
  "jsint_toString x = (case x of None \<Rightarrow> ''NaN'' | Some i \<Rightarrow> int_toString i)"

text \<open>\<^verbatim>\<open>parseInt(expireTime) + getTime()\<close>: a sum with \<^verbatim>\<open>NaN\<close> is \<^verbatim>\<open>NaN\<close>; exact on safe integers.\<close>

definition jsint_add :: "jsint \<Rightarrow> int \<Rightarrow> jsint" where
  "jsint_add x n = (case x of None \<Rightarrow> None | Some i \<Rightarrow> Some (i + n))"

text \<open>The white space \<^verbatim>\<open>parseInt\<close> skips, among the 8-bit characters.\<close>

definition is_ws :: "char \<Rightarrow> bool" where
  "is_ws c = (of_char c \<in> {9, 10, 11, 12, 13, 32, 160 :: nat})"

definition digit_val :: "char \<Rightarrow> nat option" where
  "digit_val c =
     (let k = of_char c :: nat in if 48 \<le> k \<and> k \<le> 57 then Some (k - 48) else None)"

definition hex_val :: "char \<Rightarrow> nat option" where
  "hex_val c =
     (let k = of_char c :: nat in
      if 48 \<le> k \<and> k \<le> 57 then Some (k - 48)
      else if 97 \<le> k \<and> k \<le> 102 then Some (k - 87)
      else if 65 \<le> k \<and> k \<le> 70 then Some (k - 55)
      else None)"

text \<open>
  The longest prefix of digits of the radix, read as a number; \<open>None\<close> while no digit
  has been read.
\<close>

fun scan_digits :: "int \<Rightarrow> (char \<Rightarrow> nat option) \<Rightarrow> int option \<Rightarrow> string \<Rightarrow> int option" where
  "scan_digits R dv acc [] = acc"
| "scan_digits R dv acc (c # cs) =
     (case dv c of
        None \<Rightarrow> acc
      | Some d \<Rightarrow>
          scan_digits R dv (Some ((case acc of None \<Rightarrow> 0 | Some a \<Rightarrow> a) * R + int d)) cs)"

definition signed :: "bool \<Rightarrow> int option \<Rightarrow> jsint" where
  "signed neg m = (case m of None \<Rightarrow> None | Some n \<Rightarrow> Some (if neg then - n else n))"

definition parse_radix :: "bool \<Rightarrow> string \<Rightarrow> jsint" where
  "parse_radix neg s =
     (if take 2 s = ''0x'' \<or> take 2 s = ''0X''
      then signed neg (scan_digits 16 hex_val None (drop 2 s))
      else signed neg (scan_digits 10 digit_val None s))"

text \<open>
  \<^verbatim>\<open>parseInt(string)\<close> with no radix, as ECMAScript 5 defines it, on a string: the integer
  that the longest prefix in integer notation denotes, which is the answer of the code
  when it is a safe integer.
\<close>

definition parseInt :: "string \<Rightarrow> jsint" where
  "parseInt s =
     (case dropWhile is_ws s of
        [] \<Rightarrow> None
      | c # cs \<Rightarrow>
          if c = CHR ''-'' then parse_radix True cs
          else if c = CHR ''+'' then parse_radix False cs
          else parse_radix False (c # cs))"

subsection \<open>The key deriver\<close>

text \<open>
  \<^verbatim>\<open>dataCid.replace(cidRegEx, cid)\<close> replaces the first match of \<^verbatim>\<open>/\{cid\}/\<close> in the template
  by the expansion of the replacement string \<open>cid\<close>, in which \<^verbatim>\<open>$$\<close> stands for a dollar
  sign, \<^verbatim>\<open>$&\<close> for the matched text, \<^verbatim>\<open>$`\<close> for the text before the match and \<^verbatim>\<open>$'\<close> for the
  text after it (the pattern has no capture group, so \<^verbatim>\<open>$1\<close> to \<^verbatim>\<open>$99\<close> stay as written).
\<close>

fun getSubstitution :: "string \<Rightarrow> string \<Rightarrow> string \<Rightarrow> string \<Rightarrow> string" where
  "getSubstitution m pre post [] = []"
| "getSubstitution m pre post [c] = [c]"
| "getSubstitution m pre post (c # d # r) =
     (if c = CHR ''$'' \<and> d = CHR ''$'' then CHR ''$'' # getSubstitution m pre post r
      else if c = CHR ''$'' \<and> d = CHR ''&'' then m @ getSubstitution m pre post r
      else if c = CHR ''$'' \<and> d = CHR 0x60 then pre @ getSubstitution m pre post r
      else if c = CHR ''$'' \<and> d = CHR 0x27 then post @ getSubstitution m pre post r
      else c # getSubstitution m pre post (d # r))"

text \<open>The first occurrence of a literal pattern: the text before it and the text after it.\<close>

fun first_match :: "string \<Rightarrow> string \<Rightarrow> string \<Rightarrow> (string \<times> string) option" where
  "first_match pat pre [] = (if pat = [] then Some (rev pre, []) else None)"
| "first_match pat pre (c # cs) =
     (if take (length pat) (c # cs) = pat then Some (rev pre, drop (length pat) (c # cs))
      else first_match pat (c # pre) cs)"

definition cidRegEx :: string where
  "cidRegEx = ''{cid}''"

definition replace :: "string \<Rightarrow> string \<Rightarrow> string \<Rightarrow> string" where
  "replace template pat replacement =
     (case first_match pat [] template of
        None \<Rightarrow> template
      | Some (pre, post) \<Rightarrow> pre @ getSubstitution pat pre post replacement @ post)"

definition dataCid :: string where
  "dataCid = ''cachier:data:{cid}''"

definition typeCid :: string where
  "typeCid = ''cachier:type:{cid}''"

definition expireCid :: string where
  "expireCid = ''cachier:expire:{cid}''"

record cids =
  cid_data :: string
  cid_type :: string
  cid_expire :: string

definition prepareCids :: "string \<Rightarrow> cids" where
  "prepareCids cid =
     \<lparr> cid_data = replace dataCid cidRegEx cid,
       cid_type = replace typeCid cidRegEx cid,
       cid_expire = replace expireCid cidRegEx cid \<rparr>"

subsection \<open>The collaborators\<close>

text \<open>
  The contents of \<^verbatim>\<open>window.localStorage\<close>: a list of key/value pairs, looked up with
  \<open>map_of\<close>. The storage object itself may be missing (\<^verbatim>\<open>typeof window.localStorage\<close> is
  \<^verbatim>\<open>"undefined"\<close>): then it is \<open>None\<close>, and every access to one of its methods raises a
  \<^verbatim>\<open>TypeError\<close>.
\<close>

type_synonym store = "(string \<times> string) list"

type_synonym ls = "store option"

text \<open>
  The environment of the module: when the store refuses a write (its capacity policy, any
  predicate of the contents and the pair to write), the two functions of the \<^verbatim>\<open>Json\<close>
  parameter, which may raise and may answer any value, and the runtime's two number
  conversions. The module applies \<^verbatim>\<open>Json.parse\<close> and \<^verbatim>\<open>Number\<close> to what it has read from the
  store only, a string or \<^verbatim>\<open>null\<close>, and so they are functions of a \<open>string option\<close>.
\<close>

record 'n env =
  quotaExceeded :: "store \<Rightarrow> string \<Rightarrow> string \<Rightarrow> bool"
  serialize :: "'n jsval \<Rightarrow> exn + 'n jsval"
  unserialize :: "string option \<Rightarrow> exn + 'n jsval"
  numToString :: "'n \<Rightarrow> string"
  toNumber :: "string option \<Rightarrow> 'n"

text \<open>
  \<^verbatim>\<open>lsExists\<close> is computed once, when the module is loaded; the storage object does not come
  or go afterwards, and so the model reads it off the state.
\<close>

definition lsExists :: "ls \<Rightarrow> bool" where
  "lsExists l = (l \<noteq> None)"

text \<open>\<^verbatim>\<open>window.localStorage.getItem(k)\<close>: the stored string, or \<^verbatim>\<open>null\<close> (\<open>None\<close>).\<close>

definition ls_getItem :: "ls \<Rightarrow> string \<Rightarrow> exn + string option" where
  "ls_getItem l k = (case l of None \<Rightarrow> Inl TypeError | Some st \<Rightarrow> Inr (map_of st k))"

text \<open>\<^verbatim>\<open>window.localStorage.setItem(k, v)\<close>: raises when the store refuses the write.\<close>

definition ls_setItem :: "'n env \<Rightarrow> ls \<Rightarrow> string \<Rightarrow> string \<Rightarrow> exn + ls" where
  "ls_setItem env l k v =
     (case l of
        None \<Rightarrow> Inl TypeError
      | Some st \<Rightarrow>
          if quotaExceeded env st k v then Inl QuotaExceededError
          else Inr (Some (AList.update k v st)))"

text \<open>\<^verbatim>\<open>window.localStorage.removeItem(k)\<close>: nothing happens when the key is absent.\<close>

definition ls_removeItem :: "ls \<Rightarrow> string \<Rightarrow> exn + ls" where
  "ls_removeItem l k =
     (case l of None \<Rightarrow> Inl TypeError | Some st \<Rightarrow> Inr (Some (AList.delete k st)))"

text \<open>A value read from the store, as a JavaScript value and as \<^verbatim>\<open>ToString\<close> reads it.\<close>

definition of_read :: "string option \<Rightarrow> 'n jsval" where
  "of_read r = (case r of None \<Rightarrow> JNull | Some s \<Rightarrow> JStr s)"

definition read_toString :: "string option \<Rightarrow> string" where
  "read_toString r = (case r of None \<Rightarrow> ''null'' | Some s \<Rightarrow> s)"

subsection \<open>String conversion of values\<close>

fun join_elems :: "(exn + string) list \<Rightarrow> exn + string" where
  "join_elems [] = Inr []"
| "join_elems [x] = x"
| "join_elems (x # y # r) =
     (case x of
        Inl e \<Rightarrow> Inl e
      | Inr s \<Rightarrow> (case join_elems (y # r) of Inl e \<Rightarrow> Inl e | Inr t \<Rightarrow> Inr (s @ '','' @ t)))"

text \<open>
  The abstract operation \<^verbatim>\<open>ToString\<close>. An array joins its elements with commas, an absent
  element (\<^verbatim>\<open>undefined\<close> or \<^verbatim>\<open>null\<close>) being the empty string; an object is taken to have the
  inherited \<^verbatim>\<open>Object.prototype.toString\<close>.
\<close>

fun ToString :: "('n \<Rightarrow> string) \<Rightarrow> 'n jsval \<Rightarrow> exn + string" where
  "ToString nts JUndefined = Inr ''undefined''"
| "ToString nts JNull = Inr ''null''"
| "ToString nts (JBool b) = Inr (if b then ''true'' else ''false'')"
| "ToString nts (JNum n) = Inr (nts n)"
| "ToString nts (JStr s) = Inr s"
| "ToString nts (JSymbol d) = Inl TypeError"
| "ToString nts (JFun f) = Inr f"
| "ToString nts (JArr xs) =
     join_elems (map (\<lambda>e. case e of JUndefined \<Rightarrow> Inr [] | JNull \<Rightarrow> Inr [] | _ \<Rightarrow> ToString nts e) xs)"
| "ToString nts (JObj ps) = Inr ''[object Object]''"

text \<open>
  The method call \<^verbatim>\<open>data.toString()\<close>: \<^verbatim>\<open>undefined\<close> and \<^verbatim>\<open>null\<close> have no properties, so
  the property access raises a \<^verbatim>\<open>TypeError\<close>; a symbol prints its description.
\<close>

definition toString_method :: "'n env \<Rightarrow> 'n jsval \<Rightarrow> exn + string" where
  "toString_method env v =
     (case v of
        JUndefined \<Rightarrow> Inl TypeError
      | JNull \<Rightarrow> Inl TypeError
      | JSymbol d \<Rightarrow> Inr (''Symbol('' @ d @ '')'')
      | _ \<Rightarrow> ToString (numToString env) v)"

subsection \<open>The module\<close>

definition defaultTime :: int where
  "defaultTime = 60 * 60 * 1000"

text \<open>
  \<^verbatim>\<open>_exists\<close>: whether the data key of the item holds a string. The private helper and the
  public method \<^verbatim>\<open>module.exists\<close> that exposes it.
\<close>

definition priv_exists :: "ls \<Rightarrow> string \<Rightarrow> exn + bool" where
  "priv_exists l cacheId =
     (let cid = prepareCids cacheId in
      if lsExists l then
        (case ls_getItem l (cid_data cid) of
           Inl e \<Rightarrow> Inl e
         | Inr val \<Rightarrow> Inr (val \<noteq> None))
      else Inr False)"

definition exists :: "ls \<Rightarrow> string \<Rightarrow> exn + bool" where
  "exists l cacheId = priv_exists l cacheId"

text \<open>
  \<^verbatim>\<open>module.removeItem\<close>: the three deletions stand in a \<^verbatim>\<open>try\<close> whose \<^verbatim>\<open>catch\<close> answers
  \<^verbatim>\<open>false\<close>; what was deleted before a fault stays deleted.
\<close>

definition removeItem :: "ls \<Rightarrow> string \<Rightarrow> (exn + bool) \<times> ls" where
  "removeItem l cacheId =
     (let cid = prepareCids cacheId in
      case ls_removeItem l (cid_data cid) of
        Inl e \<Rightarrow> (Inr False, l)
      | Inr l1 \<Rightarrow>
          (case ls_removeItem l1 (cid_type cid) of
             Inl e \<Rightarrow> (Inr False, l1)
           | Inr l2 \<Rightarrow>
               (case ls_removeItem l2 (cid_expire cid) of
                  Inl e \<Rightarrow> (Inr False, l2)
                | Inr l3 \<Rightarrow> (Inr True, l3))))"

text \<open>The result object of \<^verbatim>\<open>getItem\<close>; \<open>error = None\<close> is \<^verbatim>\<open>null\<close>.\<close>

record 'n myData =
  cids :: cids
  data :: "'n jsval"
  error :: "string option"
  result :: bool
  expires :: jsint

text \<open>
  \<^verbatim>\<open>now < expireDate\<close> and \<^verbatim>\<open>expireDate - now\<close>: a comparison with \<^verbatim>\<open>NaN\<close> is false; the
  difference is exact on safe integers.
\<close>

definition jsint_less :: "int \<Rightarrow> jsint \<Rightarrow> bool" where
  "jsint_less n x = (case x of None \<Rightarrow> False | Some e \<Rightarrow> n < e)"

definition jsint_sub :: "jsint \<Rightarrow> int \<Rightarrow> jsint" where
  "jsint_sub x n = (case x of None \<Rightarrow> None | Some e \<Rightarrow> Some (e - n))"

text \<open>The \<^verbatim>\<open>switch (dataType)\<close> of \<^verbatim>\<open>getItem\<close>, on the stored type tag and the stored data.\<close>

definition getItem_switch ::
  "'n env \<Rightarrow> 'n myData \<Rightarrow> string option \<Rightarrow> string option \<Rightarrow> exn + 'n myData" where
  "getItem_switch env myData dataType dat =
     (if dataType = Some ''object'' then
        (case unserialize env dat of
           Inl e \<Rightarrow> Inl e
         | Inr v \<Rightarrow> Inr (myData\<lparr>data := v, result := True\<rparr>))
      else if dataType = Some ''number'' then
        Inr (myData\<lparr>data := JNum (toNumber env dat), result := True\<rparr>)
      else if dataType = Some ''boolean'' then
        Inr (myData\<lparr>data := JBool (dat = Some ''true''), result := True\<rparr>)
      else if dataType = Some ''string'' then
        Inr (myData\<lparr>data := of_read dat, result := True\<rparr>)
      else if dataType = Some ''function'' then
        Inr (myData\<lparr>data := JStr [], result := False,
               error := Some ''Function was saved, unable to retrieve the value''\<rparr>)
      else
        Inr (myData\<lparr>data := JStr [], result := False,
               error := Some ''Unknown data type was saved''\<rparr>))"

text \<open>
  \<^verbatim>\<open>module.getItem\<close>, called when the clock reads \<open>now\<close>. It answers the result object, or
  raises, and the contents of the store after the call.
\<close>

definition getItem :: "'n env \<Rightarrow> int \<Rightarrow> ls \<Rightarrow> string \<Rightarrow> (exn + 'n myData) \<times> ls" where
  "getItem env now l cacheId =
     (let cid = prepareCids cacheId;
          myData = \<lparr>cids = cid, data = JStr [], error = None, result = False, expires = Some (- 1)\<rparr>
      in
      if lsExists l then
        (case priv_exists l cacheId of
           Inl e \<Rightarrow> (Inl e, l)
         | Inr found \<Rightarrow>
             if found then
               (case ls_getItem l (cid_expire cid) of
                  Inl e \<Rightarrow> (Inl e, l)
                | Inr ex \<Rightarrow>
                    let expireDate = parseInt (read_toString ex) in
                    if jsint_less now expireDate then
                      (case ls_getItem l (cid_type cid) of
                         Inl e \<Rightarrow> (Inl e, l)
                       | Inr dataType \<Rightarrow>
                           (case ls_getItem l (cid_data cid) of
                              Inl e \<Rightarrow> (Inl e, l)
                            | Inr dat \<Rightarrow>
                                (getItem_switch env (myData\<lparr>expires := jsint_sub expireDate now\<rparr>)
                                   dataType dat, l)))
                    else
                      (case removeItem l cacheId of
                         (r, l') \<Rightarrow> (Inr (myData\<lparr>error := Some ''Expired in cache''\<rparr>), l')))
             else (Inr (myData\<lparr>error := Some ''Cache key undefined''\<rparr>), l))
      else (Inr (myData\<lparr>error := Some ''The localStorage object is not supported''\<rparr>), l))"

text \<open>
  The TTL argument is an integer number of milliseconds, or left out (\<open>None\<close>). In
  \<^verbatim>\<open>expire || defaultTime\<close> a TTL that is left out and the TTL \<open>0\<close> are falsy.
\<close>

definition or_default :: "int option \<Rightarrow> int \<Rightarrow> int" where
  "or_default expire d = (case expire of None \<Rightarrow> d | Some e \<Rightarrow> if e = 0 then d else e)"

text \<open>
  The \<^verbatim>\<open>switch (dataType)\<close> of \<^verbatim>\<open>setItem\<close>: it returns \<^verbatim>\<open>false\<close> at once for a function, and
  otherwise goes on with the converted data, unless the conversion raises.
\<close>

datatype 'n switched = Return bool | Raise exn | Continue "'n jsval"

definition setItem_switch :: "'n env \<Rightarrow> string \<Rightarrow> 'n jsval \<Rightarrow> 'n switched" where
  "setItem_switch env dataType dat =
     (if dataType = ''function'' then Return False
      else if dataType = ''object'' then
        (case serialize env dat of Inl e \<Rightarrow> Raise e | Inr d \<Rightarrow> Continue d)
      else if dataType = ''string'' then Continue dat
      else
        (case toString_method env dat of Inl e \<Rightarrow> Raise e | Inr s \<Rightarrow> Continue (JStr s)))"

text \<open>
  \<^verbatim>\<open>module.setItem\<close>, called when the clock reads \<open>now\<close>. A value is of type
  \<^verbatim>\<open>"string"\<close> exactly when it is a \<open>JStr\<close>: the test of \<^verbatim>\<open>typeof cacheId\<close> and the test of
  \<^verbatim>\<open>typeof data\<close> after the switch are the two case distinctions. The three writes stand in
  a \<^verbatim>\<open>try\<close> whose \<^verbatim>\<open>catch\<close> answers \<^verbatim>\<open>false\<close>; what was written before a fault stays
  written.
\<close>

definition setItem ::
  "'n env \<Rightarrow> int \<Rightarrow> ls \<Rightarrow> 'n jsval \<Rightarrow> 'n jsval \<Rightarrow> int option \<Rightarrow> (exn + bool) \<times> ls" where
  "setItem env now l cacheId dat expire =
     (let expireTime = or_default expire defaultTime;
          dataType = typeof dat
      in
      case cacheId of
        JStr key \<Rightarrow>
          (case setItem_switch env dataType dat of
             Return b \<Rightarrow> (Inr b, l)
           | Raise e \<Rightarrow> (Inl e, l)
           | Continue d \<Rightarrow>
               (case d of
                  JStr s \<Rightarrow>
                    (let cid = prepareCids key;
                         expireTime' = jsint_toString (jsint_add (parseInt (int_toString expireTime)) now)
                     in
                     case ls_setItem env l (cid_data cid) s of
                       Inl e \<Rightarrow> (Inr False, l)
                     | Inr l1 \<Rightarrow>
                         (case ls_setItem env l1 (cid_type cid) dataType of
                            Inl e \<Rightarrow> (Inr False, l1)
                          | Inr l2 \<Rightarrow>
                              (case ls_setItem env l2 (cid_expire cid) expireTime' of
                                 Inl e \<Rightarrow> (Inr False, l2)
                               | Inr l3 \<Rightarrow> (Inr True, l3))))
                | _ \<Rightarrow> (Inr False, l)))
      | _ \<Rightarrow> (Inr False, l))"

subsection \<open>The earlier release 1.2\<close>

text \<open>
  The repository also keeps release 1.2 of the module. Its \<^verbatim>\<open>setItem\<close> and \<^verbatim>\<open>removeItem\<close> are
  those of 1.3.1 word for word (with \<^verbatim>\<open>ls\<close>, bound to \<^verbatim>\<open>this.localStorage\<close> when the module is
  loaded, for \<^verbatim>\<open>window.localStorage\<close>), and it has no \<^verbatim>\<open>exists\<close>. Its \<^verbatim>\<open>getItem\<close> reads the
  expiry at once: it neither asks whether the store is there nor whether the item is, and
  its result object has three fields.
\<close>

record 'n myData12 =
  result12 :: bool
  data12 :: "'n jsval"
  error12 :: "string option"

definition getItem12_switch ::
  "'n env \<Rightarrow> 'n myData12 \<Rightarrow> string option \<Rightarrow> string option \<Rightarrow> exn + 'n myData12" where
  "getItem12_switch env myData dataType dat =
     (if dataType = Some ''object'' then
        (case unserialize env dat of
           Inl e \<Rightarrow> Inl e
         | Inr v \<Rightarrow> Inr (myData\<lparr>data12 := v, result12 := True\<rparr>))
      else if dataType = Some ''number'' then
        Inr (myData\<lparr>data12 := JNum (toNumber env dat), result12 := True\<rparr>)
      else if dataType = Some ''boolean'' then
        Inr (myData\<lparr>data12 := JBool (dat = Some ''true''), result12 := True\<rparr>)
      else if dataType = Some ''string'' then
        Inr (myData\<lparr>data12 := of_read dat, result12 := True\<rparr>)
      else if dataType = Some ''function'' then
        Inr (myData\<lparr>data12 := JStr [], result12 := False,
               error12 := Some ''Function was saved, unable to retrieve the value''\<rparr>)
      else
        Inr (myData\<lparr>data12 := JStr [], result12 := False,
               error12 := Some ''Unknown data type was saved''\<rparr>))"

definition getItem12 :: "'n env \<Rightarrow> int \<Rightarrow> ls \<Rightarrow> string \<Rightarrow> (exn + 'n myData12) \<times> ls" where
  "getItem12 env now l cacheId =
     (let cid = prepareCids cacheId in
      case ls_getItem l (cid_expire cid) of
        Inl e \<Rightarrow> (Inl e, l)
      | Inr ex \<Rightarrow>
          let expireDate = parseInt (read_toString ex);
              myData = \<lparr>result12 = False, data12 = JStr [], error12 = None\<rparr>
          in
          if jsint_less now expireDate then
            (case ls_getItem l (cid_type cid) of
               Inl e \<Rightarrow> (Inl e, l)
             | Inr dataType \<Rightarrow>
                 (case ls_getItem l (cid_data cid) of
                    Inl e \<Rightarrow> (Inl e, l)
                  | Inr dat \<Rightarrow> (getItem12_switch env myData dataType dat, l)))
          else
            (case removeItem l cacheId of
               (r, l') \<Rightarrow> (Inr (myData\<lparr>error12 := Some ''Expired''\<rparr>), l')))"

subsection \<open>A browser to run the module in\<close>

text \<open>
  The theorems about the module hold in every environment. To run the module on an input,
  this section gives one environment: a store with a capacity in characters, a runtime
  whose numbers are the integers, the negative zero and \<^verbatim>\<open>NaN\<close>, and \<^verbatim>\<open>JSON.stringify\<close> and
  \<^verbatim>\<open>JSON.parse\<close> as ECMAScript defines them on the values of the data model above. The
  number \<open>Num 0\<close> is the positive zero; \<^verbatim>\<open>-0\<close> is a number of its own, written \<^verbatim>\<open>"0"\<close> by
  \<^verbatim>\<open>toString\<close> and by \<^verbatim>\<open>JSON.stringify\<close> and read from the notations \<^verbatim>\<open>-0\<close>. Outside its reach are
  the numbers written with a fraction or an exponent (\<^verbatim>\<open>JSON.parse\<close> reports one as an
  \<open>OtherError\<close>, and \<^verbatim>\<open>Number\<close> reads only integer notation), the characters beyond the
  8-bit ones, \<^verbatim>\<open>toJSON\<close> methods and the engine's reordering of integer-like property names.
\<close>

datatype jsnum = NaN | NegZero | Num int

definition jsnum_toString :: "jsnum \<Rightarrow> string" where
  "jsnum_toString n = (case n of NaN \<Rightarrow> ''NaN'' | NegZero \<Rightarrow> ''0'' | Num i \<Rightarrow> int_toString i)"

definition is_digit :: "char \<Rightarrow> bool" where
  "is_digit c = (digit_val c \<noteq> None)"

definition all_digits :: "string \<Rightarrow> int option" where
  "all_digits ds = (if ds \<noteq> [] \<and> list_all is_digit ds then scan_digits 10 digit_val None ds else None)"

definition all_hex_digits :: "string \<Rightarrow> int option" where
  "all_hex_digits ds =
     (if ds \<noteq> [] \<and> list_all (\<lambda>c. hex_val c \<noteq> None) ds then scan_digits 16 hex_val None ds else None)"

text \<open>A string in decimal integer notation, with an optional sign, or in hexadecimal notation.\<close>

definition integer_literal :: "string \<Rightarrow> int option" where
  "integer_literal t =
     (case t of
        [] \<Rightarrow> None
      | c # r \<Rightarrow>
          if c = CHR ''-'' then map_option uminus (all_digits r)
          else if c = CHR ''+'' then all_digits r
          else if take 2 t = ''0x'' \<or> take 2 t = ''0X'' then all_hex_digits (drop 2 t)
          else all_digits t)"

text \<open>The number such a notation denotes: a zero written with a minus sign is \<^verbatim>\<open>-0\<close>.\<close>

definition literal_number :: "string \<Rightarrow> jsnum option" where
  "literal_number t =
     (case integer_literal t of
        None \<Rightarrow> None
      | Some i \<Rightarrow> Some (if i = 0 \<and> take 1 t = ''-'' then NegZero else Num i))"

definition trim :: "string \<Rightarrow> string" where
  "trim s = rev (dropWhile is_ws (rev (dropWhile is_ws s)))"

text \<open>\<^verbatim>\<open>Number(r)\<close> for a value read from the store: \<^verbatim>\<open>null\<close> and the blank strings are \<open>0\<close>.\<close>

definition jsnum_of_read :: "string option \<Rightarrow> jsnum" where
  "jsnum_of_read r =
     (case r of
        None \<Rightarrow> Num 0
      | Some s \<Rightarrow>
          if trim s = [] then Num 0
          else (case literal_number (trim s) of None \<Rightarrow> NaN | Some n \<Rightarrow> n))"

definition store_size :: "store \<Rightarrow> nat" where
  "store_size st = sum_list (map (\<lambda>(k, v). length k + length v) st)"

text \<open>The store refuses a write that would take its contents beyond \<open>cap\<close> characters.\<close>

definition capacity :: "nat \<Rightarrow> store \<Rightarrow> string \<Rightarrow> string \<Rightarrow> bool" where
  "capacity cap st k v = (cap < store_size (AList.update k v st))"

paragraph \<open>\<^verbatim>\<open>JSON.stringify\<close>\<close>

definition hex_char :: "nat \<Rightarrow> char" where
  "hex_char d = (if d < 10 then char_of (48 + d) else char_of (87 + d))"

definition quote_char :: "char \<Rightarrow> string" where
  "quote_char c =
     (let k = of_char c :: nat in
      if c = CHR 0x22 then [CHR 0x5C, CHR 0x22]
      else if c = CHR 0x5C then [CHR 0x5C, CHR 0x5C]
      else if k = 8 then [CHR 0x5C, CHR ''b'']
      else if k = 12 then [CHR 0x5C, CHR ''f'']
      else if k = 10 then [CHR 0x5C, CHR ''n'']
      else if k = 13 then [CHR 0x5C, CHR ''r'']
      else if k = 9 then [CHR 0x5C, CHR ''t'']
      else if k < 32 then [CHR 0x5C, CHR ''u'', CHR ''0'', CHR ''0'', hex_char (k div 16), hex_char (k mod 16)]
      else [c])"

definition quote :: "string \<Rightarrow> string" where
  "quote s = CHR 0x22 # concat (map quote_char s) @ [CHR 0x22]"

fun join :: "string list \<Rightarrow> string" where
  "join [] = []"
| "join [x] = x"
| "join (x # y # r) = x @ '','' @ join (y # r)"

text \<open>
  The text of a value, or \<open>None\<close> (\<^verbatim>\<open>undefined\<close>) for a value JSON has no text for. Such a
  value is \<^verbatim>\<open>null\<close> as an element of an array, and left out as a property of an object.
\<close>

fun str :: "jsnum jsval \<Rightarrow> string option" where
  "str JUndefined = None"
| "str JNull = Some ''null''"
| "str (JBool b) = Some (if b then ''true'' else ''false'')"
| "str (JNum n) = Some (case n of NaN \<Rightarrow> ''null'' | NegZero \<Rightarrow> ''0'' | Num i \<Rightarrow> int_toString i)"
| "str (JStr s) = Some (quote s)"
| "str (JSymbol d) = None"
| "str (JFun f) = None"
| "str (JArr xs) =
     Some (''['' @ join (map (\<lambda>x. case str x of None \<Rightarrow> ''null'' | Some s \<Rightarrow> s) xs) @ '']'')"
| "str (JObj ps) =
     Some (''{'' @ join (concat (map (\<lambda>p. case str (snd p) of None \<Rightarrow> []
                                            | Some s \<Rightarrow> [quote (fst p) @ '':'' @ s]) ps)) @ ''}'')"

definition JSON_stringify :: "jsnum jsval \<Rightarrow> exn + jsnum jsval" where
  "JSON_stringify v = Inr (case str v of None \<Rightarrow> JUndefined | Some s \<Rightarrow> JStr s)"

paragraph \<open>\<^verbatim>\<open>JSON.parse\<close>\<close>

datatype token =
    TLBrack | TRBrack | TLBrace | TRBrace | TComma | TColon
  | TString string | TNumber string | TTrue | TFalse | TNull

definition int_part :: "string \<Rightarrow> string option" where
  "int_part s =
     (case s of
        [] \<Rightarrow> None
      | c # r \<Rightarrow>
          if c = CHR ''0'' then Some r
          else if is_digit c then Some (dropWhile is_digit r)
          else None)"

definition frac_part :: "string \<Rightarrow> string option" where
  "frac_part s =
     (case s of
        [] \<Rightarrow> Some []
      | c # r \<Rightarrow>
          if c = CHR ''.'' then (if takeWhile is_digit r = [] then None else Some (dropWhile is_digit r))
          else Some s)"

definition unsigned :: "string \<Rightarrow> string" where
  "unsigned s = (case s of [] \<Rightarrow> [] | c # r \<Rightarrow> if c = CHR ''+'' \<or> c = CHR ''-'' then r else s)"

definition exp_part :: "string \<Rightarrow> string option" where
  "exp_part s =
     (case s of
        [] \<Rightarrow> Some []
      | c # r \<Rightarrow>
          if c = CHR ''e'' \<or> c = CHR ''E''
          then (if takeWhile is_digit (unsigned r) = [] then None
                else Some (dropWhile is_digit (unsigned r)))
          else Some s)"

text \<open>The grammar of a JSON number.\<close>

definition json_number :: "string \<Rightarrow> bool" where
  "json_number w =
     (case int_part (case w of [] \<Rightarrow> [] | c # r \<Rightarrow> if c = CHR ''-'' then r else w) of
        None \<Rightarrow> False
      | Some r1 \<Rightarrow>
          (case frac_part r1 of
             None \<Rightarrow> False
           | Some r2 \<Rightarrow> (case exp_part r2 of None \<Rightarrow> False | Some r3 \<Rightarrow> r3 = [])))"

definition word_token :: "string \<Rightarrow> token option" where
  "word_token w =
     (if w = ''true'' then Some TTrue
      else if w = ''false'' then Some TFalse
      else if w = ''null'' then Some TNull
      else if json_number w then Some (TNumber w)
      else None)"

definition word_char :: "char \<Rightarrow> bool" where
  "word_char c =
     (let k = of_char c :: nat in
      (48 \<le> k \<and> k \<le> 57) \<or> (97 \<le> k \<and> k \<le> 122) \<or> (65 \<le> k \<and> k \<le> 90)
      \<or> c = CHR ''-'' \<or> c = CHR ''+'' \<or> c = CHR ''.'')"

definition json_ws :: "char \<Rightarrow> bool" where
  "json_ws c = (of_char c \<in> {9, 10, 13, 32 :: nat})"

definition punctuation :: "char \<Rightarrow> token option" where
  "punctuation c =
     (if c = CHR ''['' then Some TLBrack
      else if c = CHR '']'' then Some TRBrack
      else if c = CHR ''{'' then Some TLBrace
      else if c = CHR ''}'' then Some TRBrace
      else if c = CHR '','' then Some TComma
      else if c = CHR '':'' then Some TColon
      else None)"

definition escape_char :: "char \<Rightarrow> char option" where
  "escape_char c =
     (if c = CHR 0x22 \<or> c = CHR 0x5C \<or> c = CHR ''/'' then Some c
      else if c = CHR ''b'' then Some (char_of (8 :: nat))
      else if c = CHR ''f'' then Some (char_of (12 :: nat))
      else if c = CHR ''n'' then Some (char_of (10 :: nat))
      else if c = CHR ''r'' then Some (char_of (13 :: nat))
      else if c = CHR ''t'' then Some (char_of (9 :: nat))
      else None)"

definition tok :: "token \<Rightarrow> exn + token list \<Rightarrow> exn + token list" where
  "tok t r = (case r of Inl e \<Rightarrow> Inl e | Inr ts \<Rightarrow> Inr (t # ts))"

text \<open>
  The lexer reads one character at a time: between tokens, inside a word (a literal name
  or a number), inside a string, after a backslash, and inside the four hexadecimal
  digits of a \<^verbatim>\<open>\u\<close> escape.
\<close>

datatype lexmode = LTop | LWord string | LStr string | LEsc string | LUni string "nat list"

function (sequential) json_lex :: "lexmode \<Rightarrow> string \<Rightarrow> exn + token list" where
  "json_lex LTop [] = Inr []"
| "json_lex LTop (c # cs) =
     (if json_ws c then json_lex LTop cs
      else if c = CHR 0x22 then json_lex (LStr []) cs
      else if word_char c then json_lex (LWord [c]) cs
      else (case punctuation c of None \<Rightarrow> Inl SyntaxError | Some t \<Rightarrow> tok t (json_lex LTop cs)))"
| "json_lex (LWord w) [] = (case word_token (rev w) of None \<Rightarrow> Inl SyntaxError | Some t \<Rightarrow> Inr [t])"
| "json_lex (LWord w) (c # cs) =
     (if word_char c then json_lex (LWord (c # w)) cs
      else (case word_token (rev w) of
              None \<Rightarrow> Inl SyntaxError
            | Some t \<Rightarrow> tok t (json_lex LTop (c # cs))))"
| "json_lex (LStr acc) [] = Inl SyntaxError"
| "json_lex (LStr acc) (c # cs) =
     (if c = CHR 0x22 then tok (TString (rev acc)) (json_lex LTop cs)
      else if c = CHR 0x5C then json_lex (LEsc acc) cs
      else if (of_char c :: nat) < 32 then Inl SyntaxError
      else json_lex (LStr (c # acc)) cs)"
| "json_lex (LEsc acc) [] = Inl SyntaxError"
| "json_lex (LEsc acc) (c # cs) =
     (if c = CHR ''u'' then json_lex (LUni acc []) cs
      else (case escape_char c of None \<Rightarrow> Inl SyntaxError | Some e \<Rightarrow> json_lex (LStr (e # acc)) cs))"
| "json_lex (LUni acc hs) [] = Inl SyntaxError"
| "json_lex (LUni acc hs) (c # cs) =
     (case hex_val c of
        None \<Rightarrow> Inl SyntaxError
      | Some h \<Rightarrow>
          if length hs < 3 then json_lex (LUni acc (hs @ [h])) cs
          else if foldl (\<lambda>a d. a * 16 + d) 0 (hs @ [h]) < 256
          then json_lex (LStr (char_of (foldl (\<lambda>a d. a * 16 + d) 0 (hs @ [h])) # acc)) cs
          else Inl (OtherError ''a character beyond the 8-bit strings''))"
  by pat_completeness auto

termination json_lex
  by (relation "measure (\<lambda>(m, s). 2 * length s + (case m of LWord w \<Rightarrow> 1 | _ \<Rightarrow> 0))") auto

text \<open>
  The parser is a machine over the tokens, with the arrays and objects that are still
  open on a stack. A property name that comes twice keeps its first place and its last
  value.
\<close>

datatype frame =
    FArr "jsnum jsval list"
  | FObj "(string \<times> jsnum jsval) list"
  | FKey "(string \<times> jsnum jsval) list" string

datatype pstate = PValue | PArrStart | PObjStart | PKey | PColon | PAfter | PDone "jsnum jsval"

definition push_value :: "jsnum jsval \<Rightarrow> frame list \<Rightarrow> exn + pstate \<times> frame list" where
  "push_value v st =
     (case st of
        [] \<Rightarrow> Inr (PDone v, [])
      | FArr es # r \<Rightarrow> Inr (PAfter, FArr (v # es) # r)
      | FKey ps k # r \<Rightarrow> Inr (PAfter, FObj (AList.update k v ps) # r)
      | FObj ps # r \<Rightarrow> Inl SyntaxError)"

definition number_value :: "string \<Rightarrow> exn + jsnum" where
  "number_value w =
     (case literal_number w of
        Some n \<Rightarrow> Inr n
      | None \<Rightarrow> Inl (OtherError ''a number beyond the integers''))"

definition value_token :: "frame list \<Rightarrow> token \<Rightarrow> exn + pstate \<times> frame list" where
  "value_token st t =
     (case t of
        TNull \<Rightarrow> push_value JNull st
      | TTrue \<Rightarrow> push_value (JBool True) st
      | TFalse \<Rightarrow> push_value (JBool False) st
      | TString s \<Rightarrow> push_value (JStr s) st
      | TNumber w \<Rightarrow> (case number_value w of Inl e \<Rightarrow> Inl e | Inr n \<Rightarrow> push_value (JNum n) st)
      | TLBrack \<Rightarrow> Inr (PArrStart, FArr [] # st)
      | TLBrace \<Rightarrow> Inr (PObjStart, FObj [] # st)
      | _ \<Rightarrow> Inl SyntaxError)"

definition close_array :: "frame list \<Rightarrow> exn + pstate \<times> frame list" where
  "close_array st = (case st of FArr es # r \<Rightarrow> push_value (JArr (rev es)) r | _ \<Rightarrow> Inl SyntaxError)"

definition close_object :: "frame list \<Rightarrow> exn + pstate \<times> frame list" where
  "close_object st = (case st of FObj ps # r \<Rightarrow> push_value (JObj ps) r | _ \<Rightarrow> Inl SyntaxError)"

definition name_token :: "frame list \<Rightarrow> token \<Rightarrow> exn + pstate \<times> frame list" where
  "name_token st t =
     (case t of
        TString k \<Rightarrow> (case st of FObj ps # r \<Rightarrow> Inr (PColon, FKey ps k # r) | _ \<Rightarrow> Inl SyntaxError)
      | _ \<Rightarrow> Inl SyntaxError)"

fun step :: "pstate \<Rightarrow> frame list \<Rightarrow> token \<Rightarrow> exn + pstate \<times> frame list" where
  "step PValue st t = value_token st t"
| "step PArrStart st t = (if t = TRBrack then close_array st else value_token st t)"
| "step PObjStart st t = (if t = TRBrace then close_object st else name_token st t)"
| "step PKey st t = name_token st t"
| "step PColon st t = (if t = TColon then Inr (PValue, st) else Inl SyntaxError)"
| "step PAfter st t =
     (if t = TRBrack then close_array st
      else if t = TRBrace then close_object st
      else if t = TComma then
        (case st of
           FArr es # r \<Rightarrow> Inr (PValue, st)
         | FObj ps # r \<Rightarrow> Inr (PKey, st)
         | _ \<Rightarrow> Inl SyntaxError)
      else Inl SyntaxError)"
| "step (PDone v) st t = Inl SyntaxError"

fun run :: "pstate \<Rightarrow> frame list \<Rightarrow> token list \<Rightarrow> exn + jsnum jsval" where
  "run p st [] = (case p of PDone v \<Rightarrow> Inr v | _ \<Rightarrow> Inl SyntaxError)"
| "run p st (t # ts) = (case step p st t of Inl e \<Rightarrow> Inl e | Inr (p', st') \<Rightarrow> run p' st' ts)"

text \<open>\<^verbatim>\<open>JSON.parse(r)\<close> for a value read from the store; \<^verbatim>\<open>null\<close> is read as the text \<^verbatim>\<open>null\<close>.\<close>

definition JSON_parse :: "string option \<Rightarrow> exn + jsnum jsval" where
  "JSON_parse r = (case json_lex LTop (read_toString r) of Inl e \<Rightarrow> Inl e | Inr ts \<Rightarrow> run PValue [] ts)"

definition browser :: "nat \<Rightarrow> jsnum env" where
  "browser cap =
     \<lparr> quotaExceeded = capacity cap,
       serialize = JSON_stringify,
       unserialize = JSON_parse,
       numToString = jsnum_toString,
       toNumber = jsnum_of_read \<rparr>"

subsection \<open>The values JSON can write and read back\<close>

text \<open>
  The values that JSON has a text for, all the way down, and reads back from it:
  \<^verbatim>\<open>null\<close>, booleans, integers (not the negative zero, whose text is that of zero), strings,
  arrays of such values, and objects of such values under property names that differ.
\<close>

fun representable :: "jsnum jsval \<Rightarrow> bool" where
  "representable JUndefined = False"
| "representable JNull = True"
| "representable (JBool b) = True"
| "representable (JNum n) = (n \<noteq> NaN \<and> n \<noteq> NegZero)"
| "representable (JStr s) = True"
| "representable (JSymbol d) = False"
| "representable (JFun f) = False"
| "representable (JArr xs) = list_all representable xs"
| "representable (JObj ps) = (distinct (map fst ps) \<and> list_all (\<lambda>p. representable (snd p)) ps)"

text \<open>The tokens of the text of such a value, elements and properties set apart by commas.\<close>

fun sep :: "token list list \<Rightarrow> token list" where
  "sep [] = []"
| "sep [x] = x"
| "sep (x # y # r) = x @ TComma # sep (y # r)"

fun toks :: "jsnum jsval \<Rightarrow> token list" where
  "toks JUndefined = []"
| "toks JNull = [TNull]"
| "toks (JBool b) = [if b then TTrue else TFalse]"
| "toks (JNum n) = [TNumber (jsnum_toString n)]"
| "toks (JStr s) = [TString s]"
| "toks (JSymbol d) = []"
| "toks (JFun f) = []"
| "toks (JArr xs) = TLBrack # sep (map toks xs) @ [TRBrack]"
| "toks (JObj ps) = TLBrace # sep (map (\<lambda>p. TString (fst p) # TColon # toks (snd p)) ps) @ [TRBrace]"

text \<open>Tokens put in front of what the lexer answers for the rest of the input.\<close>

definition prepend :: "token list \<Rightarrow> exn + token list \<Rightarrow> exn + token list" where
  "prepend ts r = (case r of Inl e \<Rightarrow> Inl e | Inr us \<Rightarrow> Inr (ts @ us))"

text \<open>What may follow a word: the end of the input, or a character that ends the word.\<close>

definition boundary :: "string \<Rightarrow> bool" where
  "boundary rest = (case rest of [] \<Rightarrow> True | c # cs \<Rightarrow> \<not> word_char c)"

text \<open>The text \<^verbatim>\<open>JSON.stringify\<close> writes for a value, empty where it writes none.\<close>

definition json_text :: "jsnum jsval \<Rightarrow> string" where
  "json_text v = (case str v of None \<Rightarrow> [] | Some s \<Rightarrow> s)"

text \<open>The parser going on after a complete value.\<close>

definition after_value :: "jsnum jsval \<Rightarrow> frame list \<Rightarrow> token list \<Rightarrow> exn + jsnum jsval" where
  "after_value v st ts =
     (case push_value v st of Inl e \<Rightarrow> Inl e | Inr (p', st') \<Rightarrow> run p' st' ts)"

subsection \<open>Notions the properties are stated in\<close>

text \<open>
  The expiry \<^verbatim>\<open>getItem\<close> reads for an item, \<^verbatim>\<open>parseInt(window.localStorage.getItem(cid.expire))\<close>,
  and the condition under which \<^verbatim>\<open>getItem\<close> goes on to decode the item: its data key holds
  a string and the clock is before that expiry.
\<close>

definition storedExpiry :: "ls \<Rightarrow> string \<Rightarrow> jsint" where
  "storedExpiry l k =
     (case ls_getItem l (cid_expire (prepareCids k)) of
        Inl e \<Rightarrow> None
      | Inr ex \<Rightarrow> parseInt (read_toString ex))"

definition live :: "int \<Rightarrow> ls \<Rightarrow> string \<Rightarrow> bool" where
  "live now l k = (exists l k = Inr True \<and> jsint_less now (storedExpiry l k))"

text \<open>
  The safe integers, \<^verbatim>\<open>Number.isSafeInteger\<close>, and the clock readings the properties are
  stated for: the safe integers from the epoch on.
\<close>

definition safe_integer :: "int \<Rightarrow> bool" where
  "safe_integer i = (- (2 ^ 53) < i \<and> i < 2 ^ 53)"

definition clock_reading :: "int \<Rightarrow> bool" where
  "clock_reading now = (0 \<le> now \<and> now < 2 ^ 53)"

text \<open>
  The expiry string \<^verbatim>\<open>setItem\<close> writes when the TTL and the expiry are safe integers, and
  the contents of the store after the first \<open>n\<close> of its three writes (data, type, expiry)
  of the payload \<open>s\<close>, the tag \<open>ty\<close> and the expiry string \<open>ex\<close>.
\<close>

definition expiryText :: "int \<Rightarrow> int option \<Rightarrow> string" where
  "expiryText now expire = int_toString (or_default expire defaultTime + now)"

definition written :: "store \<Rightarrow> string \<Rightarrow> string \<Rightarrow> string \<Rightarrow> string \<Rightarrow> nat \<Rightarrow> store" where
  "written st key s ty ex n =
     (let c = prepareCids key;
          st1 = AList.update (cid_data c) s st;
          st2 = AList.update (cid_type c) ty st1;
          st3 = AList.update (cid_expire c) ex st2
      in if n = 0 then st else if n = 1 then st1 else if n = 2 then st2 else st3)"

section \<open>Properties\<close>

subsection \<open>The derived keys\<close>

lemma prepareCids_plain: "prepareCids ''k'' = \<lparr>cid_data = ''cachier:data:k'', cid_type = ''cachier:type:k'', cid_expire = ''cachier:expire:k''\<rparr>"
  by (simp add: prepareCids_def replace_def dataCid_def typeCid_def expireCid_def cidRegEx_def)

lemma cid_data_eq: "cid_data (prepareCids k) = ''cachier:data:'' @ getSubstitution ''{cid}'' ''cachier:data:'' [] k"
  by (simp add: prepareCids_def replace_def dataCid_def cidRegEx_def)

lemma cid_type_eq: "cid_type (prepareCids k) = ''cachier:type:'' @ getSubstitution ''{cid}'' ''cachier:type:'' [] k"
  by (simp add: prepareCids_def replace_def typeCid_def cidRegEx_def)

lemma cid_expire_eq: "cid_expire (prepareCids k) = ''cachier:expire:'' @ getSubstitution ''{cid}'' ''cachier:expire:'' [] k"
  by (simp add: prepareCids_def replace_def expireCid_def cidRegEx_def)

lemma cids_distinct:
  "cid_data (prepareCids k) \<noteq> cid_type (prepareCids k)"
  "cid_data (prepareCids k) \<noteq> cid_expire (prepareCids k)"
  "cid_type (prepareCids k) \<noteq> cid_expire (prepareCids k)"
  "cid_type (prepareCids k) \<noteq> cid_data (prepareCids k)"
  "cid_expire (prepareCids k) \<noteq> cid_data (prepareCids k)"
  "cid_expire (prepareCids k) \<noteq> cid_type (prepareCids k)"
  by (simp_all add: cid_data_eq cid_type_eq cid_expire_eq)

subsection \<open>Decimal text of integers\<close>

lemma of_char_digit_char: "d < 10 \<Longrightarrow> (of_char (digit_char d) :: nat) = 48 + d"
  by (simp add: digit_char_def)

lemma digit_val_digit_char: "d < 10 \<Longrightarrow> digit_val (digit_char d) = Some d"
  by (simp add: digit_val_def of_char_digit_char)

lemma digit_char_neq:
  assumes "d < 10"
  shows "digit_char d \<noteq> CHR ''x''" "digit_char d \<noteq> CHR ''X''" "digit_char d \<noteq> CHR ''-''"
    "digit_char d \<noteq> CHR ''+''" "\<not> is_ws (digit_char d)"
  using assms of_char_digit_char [OF assms] by (auto simp: is_ws_def)

lemma scan_digits_append:
  "\<forall>c\<in>set xs. dv c \<noteq> None \<Longrightarrow>
   scan_digits R dv acc (xs @ ys) = scan_digits R dv (scan_digits R dv acc xs) ys"
  by (induction xs arbitrary: acc) (auto split: option.splits)

lemma digits_chars: "0 \<le> n \<Longrightarrow> c \<in> set (digits n) \<Longrightarrow> \<exists>d<10. c = digit_char d"
proof (induction n rule: digits.induct)
  case (1 n)
  show ?case
  proof (cases "n < 10")
    case True
    with "1.prems" have "c = digit_char (nat n)" "nat n < 10"
      by (auto simp: digits.simps [of n])
    then show ?thesis by blast
  next
    case False
    with "1.prems" have "c \<in> set (digits (n div 10)) \<or> c = digit_char (nat (n mod 10))"
      by (auto simp: digits.simps [of n])
    then show ?thesis
    proof
      assume "c \<in> set (digits (n div 10))"
      moreover have "0 \<le> n div 10" using "1.prems" by simp
      ultimately show ?thesis using False "1.IH" by blast
    next
      assume "c = digit_char (nat (n mod 10))"
      moreover have "nat (n mod 10) < 10" by simp
      ultimately show ?thesis by blast
    qed
  qed
qed

lemma digits_digit_val: "0 \<le> n \<Longrightarrow> \<forall>c\<in>set (digits n). digit_val c \<noteq> None"
  using digits_chars digit_val_digit_char by fastforce

lemma scan_digits_digits: "0 \<le> n \<Longrightarrow> scan_digits 10 digit_val None (digits n) = Some n"
proof (induction n rule: digits.induct)
  case (1 n)
  show ?case
  proof (cases "n < 10")
    case True
    with "1.prems" show ?thesis
      by (simp add: digits.simps [of n] digit_val_digit_char)
  next
    case False
    from "1.prems" have nn: "0 \<le> n div 10" by simp
    have "scan_digits 10 digit_val None (digits n) =
          scan_digits 10 digit_val (scan_digits 10 digit_val None (digits (n div 10)))
            [digit_char (nat (n mod 10))]"
      using False nn by (simp add: digits.simps [of n] scan_digits_append digits_digit_val)
    also have "\<dots> = scan_digits 10 digit_val (Some (n div 10)) [digit_char (nat (n mod 10))]"
      using False nn "1.IH" by simp
    also have "\<dots> = Some n"
      by (simp add: digit_val_digit_char)
    finally show ?thesis .
  qed
qed

lemma digits_nonempty: "digits n \<noteq> []"
  by (simp add: digits.simps [of n])

lemma parse_radix_digits:
  assumes "0 \<le> n"
  shows "parse_radix neg (digits n) = Some (if neg then - n else n)"
proof -
  have "CHR ''x'' \<notin> set (digits n)" "CHR ''X'' \<notin> set (digits n)"
    using digits_chars [OF assms] digit_char_neq(1,2) by metis+
  then have "take 2 (digits n) \<noteq> ''0x''" "take 2 (digits n) \<noteq> ''0X''"
    by (metis in_set_takeD list.set_intros(1,2))+
  then show ?thesis
    using assms by (simp add: parse_radix_def scan_digits_digits signed_def)
qed

lemma parseInt_digits:
  assumes "0 \<le> n"
  shows "parseInt (digits n) = Some n"
proof -
  obtain c cs where s: "digits n = c # cs"
    using digits_nonempty by (cases "digits n") auto
  then have "c \<in> set (digits n)" by simp
  then obtain d where d: "d < 10" "c = digit_char d"
    using digits_chars [OF assms] by blast
  have "dropWhile is_ws (digits n) = c # cs"
    using s d digit_char_neq by simp
  moreover have "c \<noteq> CHR ''-''" "c \<noteq> CHR ''+''"
    using d digit_char_neq by auto
  ultimately have "parseInt (digits n) = parse_radix False (c # cs)"
    by (simp add: parseInt_def)
  then show ?thesis
    using s parse_radix_digits [OF assms, of False] by simp
qed

lemma parseInt_int_toString: "parseInt (int_toString i) = Some i"
proof (cases "i < 0")
  case True
  have "\<not> is_ws (CHR ''-'')" by (simp add: is_ws_def)
  then have "parseInt (int_toString i) = parse_radix True (digits (- i))"
    using True by (simp add: parseInt_def int_toString_def)
  then show ?thesis
    using True by (simp add: parse_radix_digits)
next
  case False
  then show ?thesis
    by (simp add: int_toString_def parseInt_digits)
qed

subsection \<open>The store and the operations on a given store\<close>

text \<open>
  What the operations do on a store that is there, and on none. The lemmas that name an
  expiry are facts of the exact arithmetic of the model; the theorems on the claims apply
  them to safe integers.
\<close>

lemma ls_getItem_simps [simp]:
  "ls_getItem None k = Inl TypeError"
  "ls_getItem (Some st) k = Inr (map_of st k)"
  by (simp_all add: ls_getItem_def)

lemma ls_removeItem_simps [simp]:
  "ls_removeItem None k = Inl TypeError"
  "ls_removeItem (Some st) k = Inr (Some (AList.delete k st))"
  by (simp_all add: ls_removeItem_def)

lemma ls_setItem_simps [simp]:
  "ls_setItem env None k v = Inl TypeError"
  "ls_setItem env (Some st) k v =
     (if quotaExceeded env st k v then Inl QuotaExceededError else Inr (Some (AList.update k v st)))"
  by (simp_all add: ls_setItem_def)

lemma priv_exists_simps [simp]:
  "priv_exists None k = Inr False"
  "priv_exists (Some st) k = Inr (map_of st (cid_data (prepareCids k)) \<noteq> None)"
  by (simp_all add: priv_exists_def lsExists_def)

lemma removeItem_simps [simp]:
  "removeItem None k = (Inr False, None)"
  "removeItem (Some st) k =
     (Inr True, Some (AList.delete (cid_expire (prepareCids k))
                   (AList.delete (cid_type (prepareCids k))
                      (AList.delete (cid_data (prepareCids k)) st))))"
  by (simp_all add: removeItem_def Let_def)

lemma map_of_delete3:
  "map_of (AList.delete a (AList.delete b (AList.delete c st))) k =
     (if k = a \<or> k = b \<or> k = c then None else map_of st k)"
  by (simp add: delete_conv')

lemma expireTime_string:
  "jsint_toString (jsint_add (parseInt (int_toString t)) now) = int_toString (t + now)"
  by (simp add: parseInt_int_toString jsint_add_def jsint_toString_def)

lemma setItem_unfold:
  "setItem env now l (JStr key) dat expire =
     (case setItem_switch env (typeof dat) dat of
        Return b \<Rightarrow> (Inr b, l)
      | Raise e \<Rightarrow> (Inl e, l)
      | Continue d \<Rightarrow>
          (case d of
             JStr s \<Rightarrow>
               (case l of
                  None \<Rightarrow> (Inr False, l)
                | Some st \<Rightarrow>
                    if quotaExceeded env st (cid_data (prepareCids key)) s then (Inr False, l)
                    else if quotaExceeded env (written st key s (typeof dat) (expiryText now expire) 1)
                              (cid_type (prepareCids key)) (typeof dat)
                    then (Inr False, Some (written st key s (typeof dat) (expiryText now expire) 1))
                    else if quotaExceeded env (written st key s (typeof dat) (expiryText now expire) 2)
                              (cid_expire (prepareCids key))
                              (expiryText now expire)
                    then (Inr False, Some (written st key s (typeof dat) (expiryText now expire) 2))
                    else (Inr True, Some (written st key s (typeof dat) (expiryText now expire) 3)))
           | _ \<Rightarrow> (Inr False, l)))"
  by (simp add: setItem_def expireTime_string written_def expiryText_def Let_def
      split: switched.splits jsval.splits option.splits)

lemma setItem_not_string:
  "typeof cacheId \<noteq> ''string'' \<Longrightarrow> setItem env now l cacheId dat expire = (Inr False, l)"
  by (cases cacheId) (simp_all add: setItem_def)

lemma typeof_string: "typeof d = ''string'' \<longleftrightarrow> (\<exists>s. d = JStr s)"
  by (cases d) simp_all

lemma setItem_switch_function: "setItem_switch env ty dat = Return b \<longleftrightarrow> ty = ''function'' \<and> b = False"
  by (auto simp: setItem_switch_def split: sum.splits)

lemma setItem_switch_Return: "setItem_switch env ty dat = Return b \<Longrightarrow> b = False"
  by (simp add: setItem_switch_def split: if_splits sum.splits)

lemma setItem_True:
  assumes "setItem env now l cacheId dat expire = (Inr True, l')"
  obtains key s st where "cacheId = JStr key" "l = Some st"
    "setItem_switch env (typeof dat) dat = Continue (JStr s)"
    "l' = Some (written st key s (typeof dat) (expiryText now expire) 3)"
proof (cases cacheId)
  case (JStr key)
  with assms that show ?thesis
    by (auto simp: setItem_unfold dest: setItem_switch_Return
        split: switched.splits jsval.splits option.splits if_splits)
qed (use assms in \<open>simp_all add: setItem_def\<close>)

lemma map_of_written3:
  "map_of (written st key s ty (expiryText now expire) 3) (cid_data (prepareCids key)) = Some s"
  "map_of (written st key s ty (expiryText now expire) 3) (cid_type (prepareCids key)) = Some ty"
  "map_of (written st key s ty (expiryText now expire) 3) (cid_expire (prepareCids key)) =
     Some (expiryText now expire)"
  by (simp_all add: written_def Let_def update_conv' cids_distinct)

lemma parseInt_expiryText:
  "parseInt (expiryText now expire) = Some (or_default expire defaultTime + now)"
  by (simp add: expiryText_def parseInt_int_toString)

lemma getItem_after_setItem:
  assumes "now' < or_default expire defaultTime + now"
  shows "getItem env now' (Some (written st key s ty (expiryText now expire) 3)) key =
     (getItem_switch env
        \<lparr>cids = prepareCids key, data = JStr [], error = None, result = False,
         expires = Some (or_default expire defaultTime + now - now')\<rparr> (Some ty) (Some s),
      Some (written st key s ty (expiryText now expire) 3))"
  using assms
  by (simp add: getItem_def lsExists_def map_of_written3 read_toString_def parseInt_expiryText
      jsint_less_def jsint_sub_def Let_def)

lemma written_0 [simp]: "written st key s ty ex 0 = st"
  by (simp add: written_def)

lemma getItem_Some:
  "getItem env now (Some st) k =
     (if map_of st (cid_data (prepareCids k)) = None then
        (Inr \<lparr>cids = prepareCids k, data = JStr [], error = Some ''Cache key undefined'',
              result = False, expires = Some (- 1)\<rparr>, Some st)
      else if jsint_less now (storedExpiry (Some st) k) then
        (getItem_switch env
           \<lparr>cids = prepareCids k, data = JStr [], error = None, result = False,
            expires = jsint_sub (storedExpiry (Some st) k) now\<rparr>
           (map_of st (cid_type (prepareCids k))) (map_of st (cid_data (prepareCids k))),
         Some st)
      else
        (Inr \<lparr>cids = prepareCids k, data = JStr [], error = Some ''Expired in cache'',
              result = False, expires = Some (- 1)\<rparr>, snd (removeItem (Some st) k)))"
  by (simp add: getItem_def lsExists_def storedExpiry_def Let_def)

lemma getItem_None:
  "getItem env now None k =
     (Inr \<lparr>cids = prepareCids k, data = JStr [],
           error = Some ''The localStorage object is not supported'',
           result = False, expires = Some (- 1)\<rparr>, None)"
  by (simp add: getItem_def lsExists_def)

lemma getItem_switch_fields:
  assumes "getItem_switch env m ty d = Inr r"
  shows "expires r = expires m" and "cids r = cids m"
  using assms by (auto simp: getItem_switch_def split: if_splits sum.splits)

lemma live_Some: "live now (Some st) k = (map_of st (cid_data (prepareCids k)) \<noteq> None \<and> jsint_less now (storedExpiry (Some st) k))"
  by (auto simp: live_def exists_def)

lemma live_None: "live now None k = False"
  by (simp add: live_def exists_def)

lemma unknown_tag_is_foreign:
  assumes "getItem env now l k = (Inr r, l')"
    and "error r = Some ''Unknown data type was saved''"
  shows "\<exists>tag. ls_getItem l (cid_type (prepareCids k)) = Inr tag
       \<and> tag \<notin> {Some ''object'', Some ''number'', Some ''boolean'', Some ''string'', Some ''function''}"
proof (cases l)
  case None
  with assms show ?thesis by (auto simp: getItem_None)
next
  case (Some st)
  with assms show ?thesis
    by (auto simp: getItem_Some getItem_switch_def split: if_splits sum.splits)
qed

subsection \<open>The JSON of the browser reads back what it writes\<close>

text \<open>
  For the browser of this theory: \<^verbatim>\<open>JSON.parse\<close> gives back every representable value from
  the text \<^verbatim>\<open>JSON.stringify\<close> writes for it, and \<^verbatim>\<open>Number\<close> gives back every number from the
  text \<^verbatim>\<open>toString\<close> writes for it. First the lexer, on words, strings and whole texts; then
  the parser, on the tokens of a value.
\<close>

lemma prepend_simps [simp]:
  "prepend [] r = r"
  "prepend (t # ts) r = tok t (prepend ts r)"
  "prepend (ts @ us) r = prepend ts (prepend us r)"
  by (auto simp: prepend_def tok_def split: sum.splits)

lemma lex_word:
  assumes "list_all word_char w" and "boundary rest"
  shows "json_lex (LWord acc) (w @ rest) =
     (case word_token (rev acc @ w) of None \<Rightarrow> Inl SyntaxError | Some t \<Rightarrow> tok t (json_lex LTop rest))"
  using assms
proof (induction w arbitrary: acc)
  case Nil
  then show ?case
    by (cases rest) (auto simp: boundary_def tok_def split: option.splits)
next
  case (Cons c w)
  then show ?case by simp
qed

lemma hex_val_hex_char: "d < 16 \<Longrightarrow> hex_val (hex_char d) = Some d"
  by (auto simp: hex_val_def hex_char_def Let_def)

lemma lex_u00:
  assumes "(of_char c :: nat) < 32"
  shows "json_lex (LStr acc) (CHR 0x5C # CHR ''u'' # CHR ''0'' # CHR ''0'' # hex_char (of_char c div 16)
            # hex_char (of_char c mod 16) # cs) = json_lex (LStr (c # acc)) cs"
proof -
  let ?k = "of_char c :: nat"
  have h1: "hex_val (hex_char (?k div 16)) = Some (?k div 16)"
    using assms by (intro hex_val_hex_char) simp
  have h2: "hex_val (hex_char (?k mod 16)) = Some (?k mod 16)"
    by (intro hex_val_hex_char) simp
  have h0: "hex_val (CHR ''0'') = Some 0"
    by (simp add: hex_val_def)
  have v: "?k div 16 * 16 + ?k mod 16 = ?k"
    by simp
  have "json_lex (LStr acc) (CHR 0x5C # CHR ''u'' # CHR ''0'' # CHR ''0'' # hex_char (?k div 16)
            # hex_char (?k mod 16) # cs) = json_lex (LUni acc []) (CHR ''0'' # CHR ''0'' # hex_char (?k div 16)
            # hex_char (?k mod 16) # cs)"
    by simp
  also have "\<dots> = json_lex (LUni acc [0, 0, ?k div 16]) (hex_char (?k mod 16) # cs)"
    by (simp add: h0 h1)
  also have "\<dots> = json_lex (LStr (char_of ?k # acc)) cs"
    using assms by (simp add: h2 v)
  finally show ?thesis by simp
qed

lemma lex_quote_char:
  "json_lex (LStr acc) (quote_char c @ cs) = json_lex (LStr (c # acc)) cs"
proof -
  let ?k = "of_char c :: nat"
  have c: "char_of ?k = c" by simp
  consider (dq) "c = CHR 0x22" | (bs) "c = CHR 0x5C" | (b) "?k = 8" | (f) "?k = 12" | (n) "?k = 10"
    | (r) "?k = 13" | (t) "?k = 9"
    | (u) "?k < 32" "?k \<noteq> 8" "?k \<noteq> 12" "?k \<noteq> 10" "?k \<noteq> 13" "?k \<noteq> 9"
    | (raw) "32 \<le> ?k" "c \<noteq> CHR 0x22" "c \<noteq> CHR 0x5C"
    by fastforce
  then show ?thesis
  proof cases
    case dq
    then show ?thesis by (simp add: quote_char_def escape_char_def)
  next
    case bs
    then show ?thesis by (simp add: quote_char_def escape_char_def)
  next
    case b
    with c have "c = char_of (8 :: nat)" by metis
    then show ?thesis by (simp add: quote_char_def escape_char_def)
  next
    case f
    with c have "c = char_of (12 :: nat)" by metis
    then show ?thesis by (simp add: quote_char_def escape_char_def)
  next
    case n
    with c have "c = char_of (10 :: nat)" by metis
    then show ?thesis by (simp add: quote_char_def escape_char_def)
  next
    case r
    with c have "c = char_of (13 :: nat)" by metis
    then show ?thesis by (simp add: quote_char_def escape_char_def)
  next
    case t
    with c have "c = char_of (9 :: nat)" by metis
    then show ?thesis by (simp add: quote_char_def escape_char_def)
  next
    case u
    then have ne: "c \<noteq> CHR 0x22" "c \<noteq> CHR 0x5C" by auto
    have "quote_char c = [CHR 0x5C, CHR ''u'', CHR ''0'', CHR ''0'', hex_char (?k div 16), hex_char (?k mod 16)]"
      using u ne by (simp add: quote_char_def Let_def)
    then show ?thesis using lex_u00 [OF u(1)] by simp
  next
    case raw
    then have "quote_char c = [c]"
      by (simp add: quote_char_def Let_def)
    then show ?thesis using raw by simp
  qed
qed

lemma lex_string_body:
  "json_lex (LStr acc) (concat (map quote_char s) @ CHR 0x22 # rest) = tok (TString (rev acc @ s)) (json_lex LTop rest)"
  by (induction s arbitrary: acc) (simp_all add: lex_quote_char)

lemma lex_quote:
  "json_lex LTop (quote s @ rest) = tok (TString s) (json_lex LTop rest)"
  using lex_string_body [of "[]" s rest]
  by (simp add: quote_def json_ws_def)

lemma is_digit_digit_char: "d < 10 \<Longrightarrow> is_digit (digit_char d)"
  by (simp add: is_digit_def digit_val_digit_char)

lemma word_char_digit_char: "d < 10 \<Longrightarrow> word_char (digit_char d)"
  by (simp add: word_char_def of_char_digit_char)

lemma digits_all_digit: "0 \<le> n \<Longrightarrow> list_all is_digit (digits n)"
  using digits_chars is_digit_digit_char by (fastforce simp: list_all_iff)

lemma digits_zero: "digits 0 = ''0''"
  by code_simp

lemma digits_leading:
  "0 < n \<Longrightarrow> \<exists>c cs. digits n = c # cs \<and> c \<noteq> CHR ''0'' \<and> is_digit c"
proof (induction n rule: digits.induct)
  case (1 n)
  show ?case
  proof (cases "n < 10")
    case True
    with "1.prems" have "nat n < 10" "nat n \<noteq> 0"
      by simp_all
    with of_char_digit_char [of "nat n"] have "digit_char (nat n) \<noteq> CHR ''0''"
      by auto
    with True "1.prems" show ?thesis
      by (simp add: digits.simps [of n] is_digit_digit_char)
  next
    case False
    then have "0 < n div 10" by simp
    with False "1.IH" obtain c cs where "digits (n div 10) = c # cs" "c \<noteq> CHR ''0''" "is_digit c"
      by blast
    with False show ?thesis
      by (simp add: digits.simps [of n])
  qed
qed

lemma all_digits_digits: "0 \<le> n \<Longrightarrow> all_digits (digits n) = Some n"
  by (simp add: all_digits_def digits_nonempty digits_all_digit scan_digits_digits)

lemma is_digit_neq: "is_digit c \<Longrightarrow> c \<noteq> CHR ''-'' \<and> c \<noteq> CHR ''+'' \<and> c \<noteq> CHR ''t'' \<and> c \<noteq> CHR ''f'' \<and> c \<noteq> CHR ''n''"
  by (auto simp: is_digit_def digit_val_def Let_def split: if_splits)

lemma digits_head_digit: "0 \<le> n \<Longrightarrow> \<exists>c cs. digits n = c # cs \<and> is_digit c"
  using digits_all_digit [of n] digits_nonempty [of n] by (cases "digits n") auto

lemma not_0x_digits: "0 \<le> n \<Longrightarrow> take 2 (digits n) \<noteq> ''0x'' \<and> take 2 (digits n) \<noteq> ''0X''"
proof -
  assume n: "0 \<le> n"
  have "CHR ''x'' \<notin> set (digits n)" "CHR ''X'' \<notin> set (digits n)"
    using digits_chars [OF n] digit_char_neq(1,2) by metis+
  then show ?thesis
    by (metis in_set_takeD list.set_intros(1,2))
qed

lemma integer_literal_int_toString: "integer_literal (int_toString i) = Some i"
proof (cases "i < 0")
  case True
  then show ?thesis
    by (simp add: integer_literal_def int_toString_def all_digits_digits)
next
  case False
  then have n: "0 \<le> i" by simp
  from digits_head_digit [OF n] obtain c cs where d: "digits i = c # cs" "is_digit c"
    by blast
  with is_digit_neq [of c] not_0x_digits [OF n] all_digits_digits [OF n] False show ?thesis
    by (auto simp: integer_literal_def int_toString_def)
qed

lemma literal_number_int_toString: "literal_number (int_toString i) = Some (Num i)"
proof (cases "i = 0")
  case True
  then show ?thesis
    using integer_literal_int_toString [of 0] by (simp add: literal_number_def int_toString_def digits_zero)
next
  case False
  then show ?thesis
    by (simp add: literal_number_def integer_literal_int_toString)
qed

lemma int_part_digits: "0 \<le> n \<Longrightarrow> int_part (digits n) = Some []"
proof (cases "n = 0")
  case True
  then show ?thesis by (simp add: digits_zero int_part_def)
next
  case False
  assume "0 \<le> n"
  with False have "0 < n" by simp
  from digits_leading [OF this] obtain c cs where d: "digits n = c # cs" "c \<noteq> CHR ''0''" "is_digit c"
    by blast
  moreover have "list_all is_digit cs"
    using digits_all_digit [of n] \<open>0 \<le> n\<close> d by simp
  then have "dropWhile is_digit cs = []"
    by (simp add: list_all_iff)
  ultimately show ?thesis
    by (simp add: int_part_def)
qed

lemma json_number_int_toString: "json_number (int_toString i)"
proof (cases "i < 0")
  case True
  then show ?thesis
    by (simp add: json_number_def int_toString_def int_part_digits frac_part_def exp_part_def)
next
  case False
  then have n: "0 \<le> i" by simp
  from digits_head_digit [OF n] obtain c cs where d: "digits i = c # cs" "is_digit c"
    by blast
  have "int_part (c # cs) = Some []"
    using int_part_digits [OF n] d by simp
  with d is_digit_neq [of c] False show ?thesis
    by (simp add: json_number_def int_toString_def frac_part_def exp_part_def)
qed

lemma int_toString_head: "\<exists>c cs. int_toString i = c # cs \<and> (is_digit c \<or> c = CHR ''-'')"
proof (cases "i < 0")
  case True
  then show ?thesis by (simp add: int_toString_def)
next
  case False
  then show ?thesis using digits_head_digit [of i] by (auto simp: int_toString_def)
qed

lemma word_token_int_toString: "word_token (int_toString i) = Some (TNumber (int_toString i))"
proof -
  obtain c cs where h: "int_toString i = c # cs" "is_digit c \<or> c = CHR ''-''"
    using int_toString_head by blast
  then have "c \<noteq> CHR ''t''" "c \<noteq> CHR ''f''" "c \<noteq> CHR ''n''"
    using is_digit_neq [of c] by auto
  with h have "int_toString i \<noteq> ''true''" "int_toString i \<noteq> ''false''" "int_toString i \<noteq> ''null''"
    by auto
  then show ?thesis
    by (simp add: word_token_def json_number_int_toString)
qed

lemma word_char_int_toString: "list_all word_char (int_toString i)"
proof -
  have "list_all word_char (digits n)" if "0 \<le> n" for n
    using digits_chars [OF that] word_char_digit_char by (fastforce simp: list_all_iff)
  moreover have "word_char (CHR ''-'')"
    by (simp add: word_char_def)
  ultimately show ?thesis
    by (simp add: int_toString_def)
qed

lemma lex_word_top:
  assumes "list_all word_char (c # w)" and "boundary rest" and "word_token (c # w) = Some t"
  shows "json_lex LTop (c # w @ rest) = tok t (json_lex LTop rest)"
proof -
  from assms(1) have wc: "word_char c" "list_all word_char w" by simp_all
  then have "\<not> json_ws c" "c \<noteq> CHR 0x22"
    by (auto simp: word_char_def json_ws_def Let_def)
  with wc have "json_lex LTop (c # w @ rest) = json_lex (LWord [c]) (w @ rest)"
    by simp
  also have "\<dots> = tok t (json_lex LTop rest)"
    using lex_word [OF wc(2) assms(2), of "[c]"] assms(3) by simp
  finally show ?thesis .
qed

lemma lex_number:
  assumes "boundary rest"
  shows "json_lex LTop (int_toString i @ rest) = tok (TNumber (int_toString i)) (json_lex LTop rest)"
proof -
  obtain c cs where h: "int_toString i = c # cs"
    using int_toString_head by blast
  with word_char_int_toString [of i] word_token_int_toString [of i] lex_word_top [OF _ assms, of c cs]
  show ?thesis by simp
qed

lemma lex_literals:
  assumes "boundary rest"
  shows "json_lex LTop (''null'' @ rest) = tok TNull (json_lex LTop rest)"
    and "json_lex LTop (''true'' @ rest) = tok TTrue (json_lex LTop rest)"
    and "json_lex LTop (''false'' @ rest) = tok TFalse (json_lex LTop rest)"
proof -
  have "list_all word_char ''null''" "list_all word_char ''true''" "list_all word_char ''false''"
    by (simp_all add: word_char_def)
  moreover have "word_token ''null'' = Some TNull" "word_token ''true'' = Some TTrue"
    "word_token ''false'' = Some TFalse"
    by (simp_all add: word_token_def)
  ultimately show "json_lex LTop (''null'' @ rest) = tok TNull (json_lex LTop rest)"
    and "json_lex LTop (''true'' @ rest) = tok TTrue (json_lex LTop rest)"
    and "json_lex LTop (''false'' @ rest) = tok TFalse (json_lex LTop rest)"
    using lex_word_top [OF _ assms] by (metis append_Cons)+
qed

lemma str_representable: "representable v \<Longrightarrow> str v = Some (json_text v)"
  by (cases v) (auto simp: json_text_def)

lemma lex_punct [simp]:
  "json_lex LTop (CHR ''['' # cs) = tok TLBrack (json_lex LTop cs)"
  "json_lex LTop (CHR '']'' # cs) = tok TRBrack (json_lex LTop cs)"
  "json_lex LTop (CHR ''{'' # cs) = tok TLBrace (json_lex LTop cs)"
  "json_lex LTop (CHR ''}'' # cs) = tok TRBrace (json_lex LTop cs)"
  "json_lex LTop (CHR '','' # cs) = tok TComma (json_lex LTop cs)"
  "json_lex LTop (CHR '':'' # cs) = tok TColon (json_lex LTop cs)"
  by (simp_all add: json_ws_def word_char_def punctuation_def)

declare json_lex.simps [simp del]

lemma boundary_punct [simp]:
  "boundary []"
  "boundary (CHR '']'' # cs)"
  "boundary (CHR ''}'' # cs)"
  "boundary (CHR '','' # cs)"
  by (simp_all add: boundary_def word_char_def)

lemma text_JArr:
  assumes "list_all representable xs"
  shows "json_text (JArr xs) = ''['' @ join (map json_text xs) @ '']''"
proof -
  have eq: "map (\<lambda>x. case str x of None \<Rightarrow> ''null'' | Some s \<Rightarrow> s) xs = map json_text xs"
    by (rule map_cong [OF refl]) (use assms in \<open>auto simp: list_all_iff str_representable\<close>)
  have "str (JArr xs) = Some (''['' @ join (map json_text xs) @ '']'')"
    by (simp only: str.simps eq)
  then show ?thesis
    by (simp only: json_text_def [of "JArr xs"] option.case)
qed

lemma text_JObj:
  assumes "list_all (\<lambda>p. representable (snd p)) ps"
  shows "json_text (JObj ps) = ''{'' @ join (map (\<lambda>p. quote (fst p) @ '':'' @ json_text (snd p)) ps) @ ''}''"
proof -
  from assms
  have eq: "concat (map (\<lambda>p. case str (snd p) of None \<Rightarrow> []
                              | Some s \<Rightarrow> [quote (fst p) @ '':'' @ s]) ps)
           = map (\<lambda>p. quote (fst p) @ '':'' @ json_text (snd p)) ps"
    by (induction ps) (auto simp: str_representable)
  have "str (JObj ps) = Some (''{'' @ join (map (\<lambda>p. quote (fst p) @ '':'' @ json_text (snd p)) ps) @ ''}'')"
    by (simp only: str.simps eq)
  then show ?thesis
    by (simp only: json_text_def [of "JObj ps"] option.case)
qed

lemma lex_joined:
  assumes "\<And>x rest. x \<in> set xs \<Longrightarrow> boundary rest \<Longrightarrow> json_lex LTop (f x @ rest) = prepend (g x) (json_lex LTop rest)"
    and "boundary rest"
  shows "json_lex LTop (join (map f xs) @ rest) = prepend (sep (map g xs)) (json_lex LTop rest)"
  using assms
proof (induction xs rule: induct_list012)
  case 1
  then show ?case by simp
next
  case (2 x)
  then show ?case by simp
next
  case (3 x y zs)
  have "json_lex LTop (join (map f (x # y # zs)) @ rest) = json_lex LTop (f x @ CHR '','' # join (map f (y # zs)) @ rest)"
    by simp
  also have "\<dots> = prepend (g x) (json_lex LTop (CHR '','' # join (map f (y # zs)) @ rest))"
    using "3.prems"(1) [of x] by simp
  also have "\<dots> = prepend (g x) (tok TComma (json_lex LTop (join (map f (y # zs)) @ rest)))"
    by (simp only: lex_punct)
  also have "\<dots> = prepend (g x) (tok TComma (prepend (sep (map g (y # zs))) (json_lex LTop rest)))"
    using "3.IH"(2) "3.prems" by simp
  finally show ?case by simp
qed

lemma lex_value:
  "representable v \<Longrightarrow> boundary rest \<Longrightarrow> json_lex LTop (json_text v @ rest) = prepend (toks v) (json_lex LTop rest)"
proof (induction v arbitrary: rest)
  case JNull
  then show ?case using lex_literals(1) by (simp add: json_text_def)
next
  case (JBool b)
  then show ?case using lex_literals(2,3) by (cases b) (simp_all add: json_text_def)
next
  case (JNum n)
  then show ?case using lex_number by (cases n) (simp_all add: json_text_def jsnum_toString_def)
next
  case (JStr s)
  then show ?case using lex_quote by (simp add: json_text_def)
next
  case (JArr xs)
  then have r: "list_all representable xs" by simp
  have "json_lex LTop (join (map json_text xs) @ CHR '']'' # rest) =
        prepend (sep (map toks xs)) (json_lex LTop (CHR '']'' # rest))"
    using JArr.IH r by (intro lex_joined) (auto simp: list_all_iff)
  then show ?case
    by (simp add: text_JArr [OF r])
next
  case (JObj ps)
  then have r: "list_all (\<lambda>p. representable (snd p)) ps" by simp
  have one: "json_lex LTop ((quote (fst p) @ '':'' @ json_text (snd p)) @ rest') =
             prepend (TString (fst p) # TColon # toks (snd p)) (json_lex LTop rest')"
    if "p \<in> set ps" "boundary rest'" for p rest'
  proof -
    have "representable (snd p)" using r that by (simp add: list_all_iff)
    moreover have "snd p \<in> Basic_BNFs.snds p" by (cases p) simp
    ultimately have "json_lex LTop (json_text (snd p) @ rest') = prepend (toks (snd p)) (json_lex LTop rest')"
      using JObj.IH that by blast
    then show ?thesis
      using lex_quote [of "fst p" "CHR '':'' # json_text (snd p) @ rest'"] by simp
  qed
  have "json_lex LTop (join (map (\<lambda>p. quote (fst p) @ '':'' @ json_text (snd p)) ps) @ CHR ''}'' # rest) =
        prepend (sep (map (\<lambda>p. TString (fst p) # TColon # toks (snd p)) ps)) (json_lex LTop (CHR ''}'' # rest))"
    using one by (intro lex_joined) auto
  then show ?case
    by (simp add: text_JObj [OF r])
qed simp_all

lemma update_fresh: "k \<notin> fst ` set ps \<Longrightarrow> AList.update k v ps = ps @ [(k, v)]"
  by (induction ps) auto

lemma run_scalar:
  assumes "p = PValue \<or> p = PArrStart"
  shows "run p st (TNull # ts) = after_value JNull st ts"
    and "run p st (TTrue # ts) = after_value (JBool True) st ts"
    and "run p st (TFalse # ts) = after_value (JBool False) st ts"
    and "run p st (TString s # ts) = after_value (JStr s) st ts"
    and "run p st (TNumber (int_toString i) # ts) = after_value (JNum (Num i)) st ts"
  using assms
  by (auto simp: after_value_def value_token_def number_value_def literal_number_int_toString
      split: sum.splits)

lemma run_open:
  assumes "p = PValue \<or> p = PArrStart"
  shows "run p st (TLBrack # ts) = run PArrStart (FArr [] # st) ts"
    and "run p st (TLBrace # ts) = run PObjStart (FObj [] # st) ts"
  using assms by (auto simp: value_token_def)

lemma run_elems:
  assumes "\<And>x p st ts. x \<in> set xs \<Longrightarrow> p = PValue \<or> p = PArrStart \<Longrightarrow>
             run p st (toks x @ ts) = after_value x st ts"
    and "xs \<noteq> []"
    and "q = PValue \<or> q = PArrStart"
  shows "run q (FArr es # st) (sep (map toks xs) @ TRBrack # ts) = after_value (JArr (rev es @ xs)) st ts"
  using assms
proof (induction xs arbitrary: es q rule: induct_list012)
  case 1
  then show ?case by simp
next
  case (2 x)
  have "run q (FArr es # st) (toks x @ TRBrack # ts) = after_value x (FArr es # st) (TRBrack # ts)"
    using "2.prems" by simp
  also have "\<dots> = after_value (JArr (rev es @ [x])) st ts"
    by (simp add: after_value_def push_value_def close_array_def)
  finally show ?case by simp
next
  case (3 x y zs)
  have "run q (FArr es # st) (sep (map toks (x # y # zs)) @ TRBrack # ts) =
        run q (FArr es # st) (toks x @ TComma # sep (map toks (y # zs)) @ TRBrack # ts)"
    by simp
  also have "\<dots> = after_value x (FArr es # st) (TComma # sep (map toks (y # zs)) @ TRBrack # ts)"
    using "3.prems" by simp
  also have "\<dots> = run PValue (FArr (x # es) # st) (sep (map toks (y # zs)) @ TRBrack # ts)"
    by (simp add: after_value_def push_value_def)
  also have "\<dots> = after_value (JArr (rev (x # es) @ y # zs)) st ts"
    using "3.prems" by (intro "3.IH"(2)) auto
  finally show ?case by simp
qed

lemma run_props:
  assumes "\<And>p q st ts. p \<in> set ps \<Longrightarrow> q = PValue \<or> q = PArrStart \<Longrightarrow>
             run q st (toks (snd p) @ ts) = after_value (snd p) st ts"
    and "ps \<noteq> []"
    and "q = PObjStart \<or> q = PKey"
    and "distinct (map fst (acc @ ps))"
  shows "run q (FObj acc # st)
           (sep (map (\<lambda>p. TString (fst p) # TColon # toks (snd p)) ps) @ TRBrace # ts) =
         after_value (JObj (acc @ ps)) st ts"
  using assms
proof (induction ps arbitrary: acc q rule: induct_list012)
  case 1
  then show ?case by simp
next
  case (2 x)
  obtain k v where x: "x = (k, v)" by (cases x)
  with "2.prems" have fresh: "k \<notin> fst ` set acc" by auto
  have "run q (FObj acc # st) (TString k # TColon # toks v @ TRBrace # ts) =
        run PValue (FKey acc k # st) (toks v @ TRBrace # ts)"
    using "2.prems"(3) by (auto simp: name_token_def)
  also have "\<dots> = after_value v (FKey acc k # st) (TRBrace # ts)"
    using "2.prems"(1) [of x PValue] x by simp
  also have "\<dots> = after_value (JObj (acc @ [(k, v)])) st ts"
    by (simp add: after_value_def push_value_def close_object_def update_fresh [OF fresh])
  finally show ?case using x by simp
next
  case (3 x y zs)
  obtain k v where x: "x = (k, v)" by (cases x)
  with "3.prems" have fresh: "k \<notin> fst ` set acc" by auto
  let ?more = "sep (map (\<lambda>p. TString (fst p) # TColon # toks (snd p)) (y # zs)) @ TRBrace # ts"
  have "run q (FObj acc # st) (TString k # TColon # toks v @ TComma # ?more) =
        run PValue (FKey acc k # st) (toks v @ TComma # ?more)"
    using "3.prems"(3) by (auto simp: name_token_def)
  also have "\<dots> = after_value v (FKey acc k # st) (TComma # ?more)"
    using "3.prems"(1) [of x PValue] x by simp
  also have "\<dots> = run PKey (FObj (acc @ [(k, v)]) # st) ?more"
    by (simp add: after_value_def push_value_def update_fresh [OF fresh])
  also have "\<dots> = after_value (JObj ((acc @ [(k, v)]) @ y # zs)) st ts"
    using "3.prems" x by (intro "3.IH"(2)) auto
  finally show ?case using x by simp
qed

lemma run_value:
  "representable v \<Longrightarrow> p = PValue \<or> p = PArrStart \<Longrightarrow> run p st (toks v @ ts) = after_value v st ts"
proof (induction v arbitrary: p st ts)
  case JNull
  then show ?case using run_scalar(1) by simp
next
  case (JBool b)
  then show ?case using run_scalar(2,3) by (cases b) simp_all
next
  case (JNum n)
  then show ?case using run_scalar(5) by (cases n) (simp_all add: jsnum_toString_def)
next
  case (JStr s)
  then show ?case using run_scalar(4) by simp
next
  case (JArr xs)
  show ?case
  proof (cases "xs = []")
    case True
    with JArr.prems show ?thesis
      by (auto simp: value_token_def close_array_def after_value_def)
  next
    case False
    have "run p st (toks (JArr xs) @ ts) = run PArrStart (FArr [] # st) (sep (map toks xs) @ TRBrack # ts)"
      using JArr.prems(2) run_open(1) by simp
    also have "\<dots> = after_value (JArr (rev [] @ xs)) st ts"
      using JArr.IH JArr.prems(1) False by (intro run_elems) (auto simp: list_all_iff)
    finally show ?thesis by simp
  qed
next
  case (JObj ps)
  show ?case
  proof (cases "ps = []")
    case True
    with JObj.prems show ?thesis
      by (auto simp: value_token_def close_object_def after_value_def)
  next
    case False
    have ih: "run q st (toks (snd p) @ ts) = after_value (snd p) st ts"
      if "p \<in> set ps" "q = PValue \<or> q = PArrStart" for p q st ts
    proof -
      have "representable (snd p)" using JObj.prems(1) that by (simp add: list_all_iff)
      moreover have "snd p \<in> Basic_BNFs.snds p" by (cases p) simp
      ultimately show ?thesis using JObj.IH that by blast
    qed
    have "run p st (toks (JObj ps) @ ts) =
          run PObjStart (FObj [] # st)
            (sep (map (\<lambda>p. TString (fst p) # TColon # toks (snd p)) ps) @ TRBrace # ts)"
      using JObj.prems(2) run_open(2) by simp
    also have "\<dots> = after_value (JObj ([] @ ps)) st ts"
      using ih JObj.prems(1) False by (intro run_props) auto
    finally show ?thesis by simp
  qed
qed simp_all

lemma JSON_roundtrip:
  assumes "representable v"
  shows "JSON_stringify v = Inr (JStr (json_text v))"
    and "JSON_parse (Some (json_text v)) = Inr v"
proof -
  show "JSON_stringify v = Inr (JStr (json_text v))"
    using assms by (simp add: JSON_stringify_def str_representable)
  have "json_lex LTop (json_text v @ []) = prepend (toks v) (json_lex LTop [])"
    using assms by (intro lex_value) simp_all
  then have "json_lex LTop (json_text v) = Inr (toks v)"
    by (simp add: json_lex.simps prepend_def)
  moreover have "run PValue [] (toks v @ []) = after_value v [] []"
    using assms by (intro run_value) simp_all
  ultimately show "JSON_parse (Some (json_text v)) = Inr v"
    by (simp add: JSON_parse_def read_toString_def after_value_def push_value_def)
qed

lemma no_ws_int_toString: "c \<in> set (int_toString i) \<Longrightarrow> \<not> is_ws c"
proof -
  assume c: "c \<in> set (int_toString i)"
  have d: "\<not> is_ws c" if "c \<in> set (digits n)" "0 \<le> n" for n
    using digits_chars [OF that(2) that(1)] digit_char_neq(5) by blast
  have "\<not> is_ws (CHR ''-'')" by (simp add: is_ws_def)
  with c d [of i] d [of "- i"] show ?thesis
    by (auto simp: int_toString_def split: if_splits)
qed

lemma trim_no_ws: "(\<And>c. c \<in> set s \<Longrightarrow> \<not> is_ws c) \<Longrightarrow> trim s = s"
proof -
  assume h: "\<And>c. c \<in> set s \<Longrightarrow> \<not> is_ws c"
  have "dropWhile is_ws xs = xs" if "\<And>c. c \<in> set xs \<Longrightarrow> \<not> is_ws c" for xs
    using that by (cases xs) auto
  from this [of s] this [of "rev s"] h show ?thesis
    by (simp add: trim_def)
qed

lemma int_toString_nonempty: "int_toString i \<noteq> []"
  by (simp add: int_toString_def digits_nonempty)

lemma browser_number_roundtrip:
  assumes "n \<noteq> NegZero"
  shows "toNumber (browser cap) (Some (numToString (browser cap) n)) = n"
proof (cases n)
  case NaN
  have "jsnum_of_read (Some ''NaN'') = NaN"
    by code_simp
  with NaN show ?thesis
    by (simp add: browser_def jsnum_toString_def)
next
  case (Num i)
  have "trim (int_toString i) = int_toString i"
    using no_ws_int_toString by (intro trim_no_ws)
  with Num show ?thesis
    by (simp add: browser_def jsnum_toString_def jsnum_of_read_def int_toString_nonempty
        literal_number_int_toString)
qed (use assms in simp)

lemma browser_JSON_roundtrip:
  assumes "representable v"
  shows "\<exists>s. serialize (browser cap) v = Inr (JStr s) \<and> unserialize (browser cap) (Some s) = Inr v"
  using JSON_roundtrip [OF assms] by (auto simp: browser_def)

declare json_lex.simps [simp]

subsection \<open>The two switches undo each other\<close>

text \<open>
  What the switch of \<^verbatim>\<open>setItem\<close> made of a value, the switch of \<^verbatim>\<open>getItem\<close> turns back into
  the value, as far as the collaborators give back what they were given; in the browser of
  this theory, for every representable value.
\<close>

lemma switch_roundtrip:
  assumes sw: "setItem_switch env (typeof v) v = Continue (JStr s)"
    and kind: "typeof v = ''object'' \<or> typeof v = ''number'' \<or> typeof v = ''boolean''
                \<or> typeof v = ''string''"
    and json: "typeof v = ''object'' \<longrightarrow>
                (\<exists>s. serialize env v = Inr (JStr s) \<and> unserialize env (Some s) = Inr v)"
    and num: "\<forall>n. v = JNum n \<longrightarrow> toNumber env (Some (numToString env n)) = n"
  shows "getItem_switch env m (Some (typeof v)) (Some s) = Inr (m\<lparr>data := v, result := True\<rparr>)"
proof -
  have decoded: "unserialize env (Some s) = Inr v" if "typeof v = ''object''"
    using that sw json by (auto simp: setItem_switch_def split: sum.splits)
  show ?thesis
  proof (cases v)
    case (JBool b)
    with sw show ?thesis
      by (cases b) (auto simp: setItem_switch_def toString_method_def getItem_switch_def)
  next
    case (JNum n)
    with sw num show ?thesis
      by (auto simp: setItem_switch_def toString_method_def getItem_switch_def)
  next
    case (JStr x)
    with sw show ?thesis
      by (auto simp: setItem_switch_def getItem_switch_def of_read_def)
  next
    case JNull
    with decoded show ?thesis
      by (simp add: getItem_switch_def)
  next
    case (JArr xs)
    with decoded show ?thesis
      by (simp add: getItem_switch_def)
  next
    case (JObj ps)
    with decoded show ?thesis
      by (simp add: getItem_switch_def)
  qed (use kind in simp_all)
qed

lemma representable_kind:
  "representable v \<Longrightarrow>
   typeof v = ''object'' \<or> typeof v = ''number'' \<or> typeof v = ''boolean'' \<or> typeof v = ''string''"
  by (cases v) simp_all

lemma roundtrip_in_browser:
  assumes set: "setItem (browser cap) now l (JStr k) v (Some t) = (Inr True, l')"
    and ttl: "0 < t"
    and soon: "now' < now + t"
    and clock: "clock_reading now" "clock_reading now'"
    and expiry: "safe_integer (now + t)"
    and rep: "representable v \<or> v = JNum NaN"
  shows "getItem (browser cap) now' l' k =
     (Inr \<lparr>cids = prepareCids k, data = v, error = None, result = True,
           expires = Some (now + t - now')\<rparr>, l')"
proof -
  from set obtain s st where
    sw: "setItem_switch (browser cap) (typeof v) v = Continue (JStr s)"
    and l': "l' = Some (written st k s (typeof v) (expiryText now (Some t)) 3)"
    by (auto elim: setItem_True)
  have od: "or_default (Some t) defaultTime = t"
    using ttl by (simp add: or_default_def)
  have "getItem (browser cap) now' l' k =
     (getItem_switch (browser cap)
        \<lparr>cids = prepareCids k, data = JStr [], error = None, result = False,
         expires = Some (t + now - now')\<rparr> (Some (typeof v)) (Some s), l')"
    using getItem_after_setItem [of now' "Some t" now "browser cap" st k s "typeof v"] soon od l'
    by simp
  moreover have "getItem_switch (browser cap)
        \<lparr>cids = prepareCids k, data = JStr [], error = None, result = False,
         expires = Some (t + now - now')\<rparr> (Some (typeof v)) (Some s)
      = Inr (\<lparr>cids = prepareCids k, data = JStr [], error = None, result = False,
         expires = Some (t + now - now')\<rparr>\<lparr>data := v, result := True\<rparr>)"
    using rep
  proof
    assume r: "representable v"
    from sw representable_kind [OF r] browser_JSON_roundtrip [OF r] browser_number_roundtrip r
    show ?thesis
      by (intro switch_roundtrip) auto
  next
    assume "v = JNum NaN"
    with sw browser_number_roundtrip [of NaN] show ?thesis
      by (intro switch_roundtrip) auto
  qed
  ultimately show ?thesis
    by (simp add: add.commute)
qed

subsection \<open>When an operation raises\<close>

text \<open>
  \<^verbatim>\<open>exists\<close> and \<^verbatim>\<open>removeItem\<close> always answer a boolean. \<^verbatim>\<open>setItem\<close> raises exactly what
  \<^verbatim>\<open>Json.stringify\<close> or \<^verbatim>\<open>toString\<close> raise, which it calls outside its \<^verbatim>\<open>try\<close>; \<^verbatim>\<open>getItem\<close>
  raises exactly what \<^verbatim>\<open>Json.parse\<close> raises on the data of an item tagged \<^verbatim>\<open>object\<close>.
\<close>

lemma exists_returns: "exists l k = Inr True \<or> exists l k = Inr False"
  by (cases l) (auto simp: exists_def)

lemma removeItem_returns: "fst (removeItem l k) = Inr (lsExists l)"
  by (cases l) (simp_all add: lsExists_def)

lemma setItem_raises:
  "fst (setItem env now l cacheId dat expire) = Inl e \<longleftrightarrow>
     typeof cacheId = ''string''
     \<and> (if typeof dat = ''object'' then serialize env dat = Inl e
          else typeof dat \<noteq> ''function'' \<and> typeof dat \<noteq> ''string''
               \<and> toString_method env dat = Inl e)"
proof (cases cacheId)
  case (JStr key)
  then show ?thesis
    by (auto simp: setItem_unfold setItem_switch_def
        split: sum.splits jsval.splits option.splits)
qed (simp_all add: setItem_def)

lemma getItem_raises:
  "fst (getItem env now l k) = Inl e \<longleftrightarrow>
     live now l k
     \<and> ls_getItem l (cid_type (prepareCids k)) = Inr (Some ''object'')
     \<and> (\<exists>d. ls_getItem l (cid_data (prepareCids k)) = Inr d \<and> unserialize env d = Inl e)"
proof (cases l)
  case None
  then show ?thesis by (simp add: getItem_None live_None)
next
  case (Some st)
  then show ?thesis
    by (auto simp: getItem_Some live_Some getItem_switch_def split: sum.splits)
qed

subsection \<open>Release 1.2 against release 1.3.1\<close>

text \<open>
  What the two guards that 1.3.1 added to \<^verbatim>\<open>getItem\<close> changed: without a store, the
  \<^verbatim>\<open>getItem\<close> of 1.2 raises, and for an item that was never stored it answers
  \<^verbatim>\<open>"Expired"\<close> after deleting whatever the three keys held.
\<close>

lemma getItem12_unavailable: "getItem12 env now None k = (Inl TypeError, None)"
  by (simp add: getItem12_def)

lemma getItem12_not_found:
  assumes "map_of st (cid_expire (prepareCids k)) = None"
  shows "getItem12 env now (Some st) k =
     (Inr \<lparr>result12 = False, data12 = JStr [], error12 = Some ''Expired''\<rparr>,
      snd (removeItem (Some st) k))"
proof -
  have "parseInt ''null'' = None"
    by code_simp
  with assms show ?thesis
    by (simp add: getItem12_def read_toString_def jsint_less_def Let_def)
qed

subsection \<open>C1: a value that was set is the value that is got\<close>

text \<open>
  Claim C1 asks of every value of kind object, number, boolean or string that a
  \<^verbatim>\<open>getItem\<close> right after a successful \<^verbatim>\<open>setItem\<close> answers a value equal to it. For an object
  that is the doing of \<^verbatim>\<open>JSON\<close>, which does not give back every object: the array
  \<^verbatim>\<open>[undefined]\<close> is stored as the text \<^verbatim>\<open>[null]\<close> and comes back as \<^verbatim>\<open>[null]\<close>. For a number
  it is the doing of \<^verbatim>\<open>toString\<close> and \<^verbatim>\<open>Number\<close>, which do not give back every number: the
  negative zero is stored as the text \<^verbatim>\<open>0\<close> and comes back as the positive zero, another
  number (\<^verbatim>\<open>Object.is\<close> and the sign of \<^verbatim>\<open>1/x\<close> tell the two apart).
\<close>

theorem roundtrip_counterexample:
  "typeof (JArr [JUndefined] :: jsnum jsval) = ''object''
   \<and> setItem (browser 1000) 0 (Some []) (JStr ''k'') (JArr [JUndefined]) (Some 1000) =
       (Inr True, Some [(''cachier:data:k'', ''[null]''), (''cachier:type:k'', ''object''),
                        (''cachier:expire:k'', ''1000'')])
   \<and> getItem (browser 1000) 0
         (Some [(''cachier:data:k'', ''[null]''), (''cachier:type:k'', ''object''),
                (''cachier:expire:k'', ''1000'')]) ''k'' =
       (Inr \<lparr>cids = prepareCids ''k'', data = JArr [JNull], error = None, result = True,
             expires = Some 1000\<rparr>,
        Some [(''cachier:data:k'', ''[null]''), (''cachier:type:k'', ''object''),
              (''cachier:expire:k'', ''1000'')])
   \<and> JArr [JNull] \<noteq> (JArr [JUndefined] :: jsnum jsval)
   \<and> typeof (JNum NegZero) = ''number''
   \<and> setItem (browser 1000) 0 (Some []) (JStr ''k'') (JNum NegZero) (Some 1000) =
       (Inr True, Some [(''cachier:data:k'', ''0''), (''cachier:type:k'', ''number''),
                        (''cachier:expire:k'', ''1000'')])
   \<and> getItem (browser 1000) 0
         (Some [(''cachier:data:k'', ''0''), (''cachier:type:k'', ''number''),
                (''cachier:expire:k'', ''1000'')]) ''k'' =
       (Inr \<lparr>cids = prepareCids ''k'', data = JNum (Num 0), error = None, result = True,
             expires = Some 1000\<rparr>,
        Some [(''cachier:data:k'', ''0''), (''cachier:type:k'', ''number''),
              (''cachier:expire:k'', ''1000'')])
   \<and> JNum (Num 0) \<noteq> JNum NegZero"
  by code_simp

text \<open>
  Claim C1, amended. Let the clock read \<open>now\<close> when \<^verbatim>\<open>setItem(k, v, t)\<close> is called and
  answers \<^verbatim>\<open>true\<close>, for a string \<open>k\<close>, an integer TTL \<open>t > 0\<close> and a value \<open>v\<close> of kind
  object, number, boolean or string, and let \<^verbatim>\<open>getItem(k)\<close> be called next, when the clock
  reads \<open>now'\<close>, before \<open>t\<close> milliseconds have passed; the two clock readings and the
  expiry \<open>now + t\<close> are safe integers, the clock readings from the epoch on. If \<open>v\<close> is an
  object that \<^verbatim>\<open>Json.parse\<close> gives back from the text \<^verbatim>\<open>Json.stringify\<close> made of it, or a
  number that \<^verbatim>\<open>Number\<close> gives back from the text \<^verbatim>\<open>toString\<close> made of it, or a boolean or a
  string, then \<^verbatim>\<open>getItem\<close> answers with \<^verbatim>\<open>result\<close> true, \<^verbatim>\<open>data\<close> equal to \<open>v\<close>, no error,
  and the time that is left in \<^verbatim>\<open>expires\<close>; the store stays as \<^verbatim>\<open>setItem\<close> left it.
  (In the browser of this theory the first condition holds for every representable
  value and the second for every number but the negative zero,
  \<open>browser_JSON_roundtrip\<close> and \<open>browser_number_roundtrip\<close>, and so every representable
  value and every number but the negative zero comes back: \<open>roundtrip_in_browser\<close>.)
\<close>

theorem roundtrip:
  assumes set: "setItem env now l (JStr k) v (Some t) = (Inr True, l')"
    and ttl: "0 < t"
    and soon: "now' < now + t"
    and clock: "clock_reading now" "clock_reading now'"
    and expiry: "safe_integer (now + t)"
    and kind: "typeof v = ''object'' \<or> typeof v = ''number'' \<or> typeof v = ''boolean''
                \<or> typeof v = ''string''"
    and json: "typeof v = ''object'' \<longrightarrow>
                (\<exists>s. serialize env v = Inr (JStr s) \<and> unserialize env (Some s) = Inr v)"
    and num: "\<forall>n. v = JNum n \<longrightarrow> toNumber env (Some (numToString env n)) = n"
  shows "\<exists>r. getItem env now' l' k = (Inr r, l') \<and> result r = True \<and> data r = v
           \<and> error r = None \<and> expires r = Some (now + t - now')"
proof -
  from set obtain s st where
    sw: "setItem_switch env (typeof v) v = Continue (JStr s)"
    and l': "l' = Some (written st k s (typeof v) (expiryText now (Some t)) 3)"
    by (auto elim: setItem_True)
  have od: "or_default (Some t) defaultTime = t"
    using ttl by (simp add: or_default_def)
  have get: "getItem env now' l' k =
     (getItem_switch env
        \<lparr>cids = prepareCids k, data = JStr [], error = None, result = False,
         expires = Some (t + now - now')\<rparr> (Some (typeof v)) (Some s), l')"
    using getItem_after_setItem [of now' "Some t" now env st k s "typeof v"] soon od l' by simp
  have "getItem_switch env
        \<lparr>cids = prepareCids k, data = JStr [], error = None, result = False,
         expires = Some (t + now - now')\<rparr> (Some (typeof v)) (Some s)
      = Inr (\<lparr>cids = prepareCids k, data = JStr [], error = None, result = False,
         expires = Some (t + now - now')\<rparr>\<lparr>data := v, result := True\<rparr>)"
    using sw kind json num by (rule switch_roundtrip)
  with get show ?thesis
    by (simp add: add.commute)
qed

theorem roundtrip_witness:
  "setItem (browser 1000) 0 (Some []) (JStr ''k'')
     (JObj [(''a'', JNum (Num 1)), (''b'', JArr [JStr ''x'', JNull, JBool False])]) (Some 1000) =
     (Inr True, Some [(''cachier:data:k'', ''{'' @ quote ''a'' @ '':1,'' @ quote ''b'' @ '':['' @ quote ''x'' @ '',null,false]}''),
                      (''cachier:type:k'', ''object''), (''cachier:expire:k'', ''1000'')])
   \<and> clock_reading 0 \<and> clock_reading 999 \<and> safe_integer (0 + 1000)
   \<and> (\<exists>r. getItem (browser 1000) 999
          (Some [(''cachier:data:k'', ''{'' @ quote ''a'' @ '':1,'' @ quote ''b'' @ '':['' @ quote ''x'' @ '',null,false]}''),
                 (''cachier:type:k'', ''object''), (''cachier:expire:k'', ''1000'')]) ''k'' =
          (Inr r, Some [(''cachier:data:k'', ''{'' @ quote ''a'' @ '':1,'' @ quote ''b'' @ '':['' @ quote ''x'' @ '',null,false]}''),
                        (''cachier:type:k'', ''object''), (''cachier:expire:k'', ''1000'')])
        \<and> result r = True
        \<and> data r = JObj [(''a'', JNum (Num 1)), (''b'', JArr [JStr ''x'', JNull, JBool False])]
        \<and> error r = None \<and> expires r = Some (0 + 1000 - 999))"
proof -
  let ?v = "JObj [(''a'', JNum (Num 1)), (''b'', JArr [JStr ''x'', JNull, JBool False])]"
  let ?s = "''{'' @ quote ''a'' @ '':1,'' @ quote ''b'' @ '':['' @ quote ''x'' @ '',null,false]}''"
  have set: "setItem (browser 1000) 0 (Some []) (JStr ''k'') ?v (Some 1000) =
     (Inr True, Some [(''cachier:data:k'', ?s), (''cachier:type:k'', ''object''),
                      (''cachier:expire:k'', ''1000'')])"
    by code_simp
  have c0: "clock_reading 0" and c1: "clock_reading 999" and ex: "safe_integer (0 + 1000)"
    by (simp_all add: clock_reading_def safe_integer_def)
  have ser: "serialize (browser 1000) ?v = Inr (JStr ?s)"
    by code_simp
  have par: "unserialize (browser 1000) (Some ?s) = Inr ?v"
    by code_simp
  have json: "typeof ?v = ''object'' \<longrightarrow>
      (\<exists>s. serialize (browser 1000) ?v = Inr (JStr s) \<and> unserialize (browser 1000) (Some s) = Inr ?v)"
    using ser par by blast
  have num: "\<forall>n. ?v = JNum n \<longrightarrow> toNumber (browser 1000) (Some (numToString (browser 1000) n)) = n"
    by simp
  have kind: "typeof ?v = ''object'' \<or> typeof ?v = ''number'' \<or> typeof ?v = ''boolean''
                \<or> typeof ?v = ''string''"
    by simp
  from set c0 c1 ex roundtrip [OF set _ _ c0 c1 ex kind json num] show ?thesis
    by simp
qed

subsection \<open>C2: errors come back as values\<close>

text \<open>
  Claim C2: no public operation raises to its caller, whatever the key, the value, the
  TTL and the state of the store. The documentation of \<^verbatim>\<open>setItem\<close> promises as much (all types
  except functions are allowed, and the answer is a boolean), but the code breaks the
  promise at two places: \<^verbatim>\<open>setItem\<close> with the value \<^verbatim>\<open>undefined\<close> raises a \<^verbatim>\<open>TypeError\<close>, and
  \<^verbatim>\<open>getItem\<close> on an item whose tag is \<^verbatim>\<open>object\<close> and whose data is not JSON text raises the
  \<^verbatim>\<open>SyntaxError\<close> of \<^verbatim>\<open>JSON.parse\<close>.
\<close>

theorem raised_to_the_caller:
  "setItem (browser 1000) 0 (Some []) (JStr ''k'') JUndefined None = (Inl TypeError, Some [])
   \<and> fst (getItem (browser 1000) 0
            (Some [(''cachier:data:k'', ''{oops''), (''cachier:type:k'', ''object''),
                   (''cachier:expire:k'', ''1000'')]) ''k'') = Inl SyntaxError"
  by code_simp

subsection \<open>C3: an expired item is deleted by the read that finds it expired\<close>

text \<open>
  Claim C3. If the item of a key exists and \<^verbatim>\<open>getItem\<close> is called when the clock has reached
  the stored expiry, then \<^verbatim>\<open>getItem\<close> answers with \<^verbatim>\<open>result\<close> false and the error
  \<^verbatim>\<open>"Expired in cache"\<close>, none of the three derived keys holds a string afterwards, and
  \<^verbatim>\<open>exists\<close> answers \<^verbatim>\<open>false\<close>.
\<close>

theorem expired_entry_evicted:
  assumes "exists l k = Inr True"
    and "storedExpiry l k = Some e"
    and "e \<le> now"
  shows "\<exists>r l'. getItem env now l k = (Inr r, l')
           \<and> result r = False \<and> error r = Some ''Expired in cache''
           \<and> ls_getItem l' (cid_data (prepareCids k)) = Inr None
           \<and> ls_getItem l' (cid_type (prepareCids k)) = Inr None
           \<and> ls_getItem l' (cid_expire (prepareCids k)) = Inr None
           \<and> exists l' k = Inr False"
proof (cases l)
  case None
  with assms(1) show ?thesis by (simp add: exists_def)
next
  case (Some st)
  with assms show ?thesis
    by (simp add: exists_def getItem_Some jsint_less_def map_of_delete3)
qed

theorem expired_entry_evicted_witness:
  "exists (Some [(''cachier:data:k'', ''5''), (''cachier:type:k'', ''number''),
                 (''cachier:expire:k'', ''100'')]) ''k'' = Inr True
   \<and> storedExpiry (Some [(''cachier:data:k'', ''5''), (''cachier:type:k'', ''number''),
                          (''cachier:expire:k'', ''100'')]) ''k'' = Some 100
   \<and> (\<exists>r l'. getItem (browser 1000) 100
                 (Some [(''cachier:data:k'', ''5''), (''cachier:type:k'', ''number''),
                        (''cachier:expire:k'', ''100'')]) ''k'' = (Inr r, l')
           \<and> result r = False \<and> error r = Some ''Expired in cache''
           \<and> ls_getItem l' (cid_data (prepareCids ''k'')) = Inr None
           \<and> ls_getItem l' (cid_type (prepareCids ''k'')) = Inr None
           \<and> ls_getItem l' (cid_expire (prepareCids ''k'')) = Inr None
           \<and> exists l' ''k'' = Inr False)"
proof -
  let ?l = "Some [(''cachier:data:k'', ''5''), (''cachier:type:k'', ''number''),
                  (''cachier:expire:k'', ''100'')]"
  have h1: "exists ?l ''k'' = Inr True"
    by code_simp
  have h2: "storedExpiry ?l ''k'' = Some 100"
    by code_simp
  from h1 h2 expired_entry_evicted [OF h1 h2, of 100 "browser 1000"] show ?thesis
    by simp
qed

subsection \<open>C4: a key that was never stored\<close>

text \<open>
  Claim C4 is made of the \<^verbatim>\<open>getItem\<close> of both releases. The \<^verbatim>\<open>getItem\<close> of release 1.2 does
  not ask whether the item is there, and has no error for a key that is not. For a key
  with no entry it reads the expiry \<^verbatim>\<open>NaN\<close>, calls \<^verbatim>\<open>removeItem\<close> and answers \<^verbatim>\<open>"Expired"\<close>;
  when the type and the expiry of an item are there without its data, it deletes them if
  the expiry has passed, and answers with \<^verbatim>\<open>result\<close> true and the data \<^verbatim>\<open>null\<close> if it has not.
\<close>

theorem key_not_found_counterexample:
  "exists (Some []) ''k'' = Inr False
   \<and> getItem12 (browser 1000) 50 (Some []) ''k'' =
       (Inr \<lparr>result12 = False, data12 = JStr [], error12 = Some ''Expired''\<rparr>, Some [])
   \<and> exists (Some [(''cachier:type:k'', ''string''), (''cachier:expire:k'', ''10'')]) ''k'' = Inr False
   \<and> getItem12 (browser 1000) 50
         (Some [(''cachier:type:k'', ''string''), (''cachier:expire:k'', ''10'')]) ''k'' =
       (Inr \<lparr>result12 = False, data12 = JStr [], error12 = Some ''Expired''\<rparr>, Some [])
   \<and> Some [] \<noteq> Some [(''cachier:type:k'', ''string''), (''cachier:expire:k'', ''10'')]
   \<and> exists (Some [(''cachier:type:k'', ''string''), (''cachier:expire:k'', ''100'')]) ''k'' = Inr False
   \<and> getItem12 (browser 1000) 50
         (Some [(''cachier:type:k'', ''string''), (''cachier:expire:k'', ''100'')]) ''k'' =
       (Inr \<lparr>result12 = True, data12 = JNull, error12 = None\<rparr>,
        Some [(''cachier:type:k'', ''string''), (''cachier:expire:k'', ''100'')])"
  by code_simp

text \<open>
  Claim C4, amended to release 1.3.1. With a store at hand, if \<^verbatim>\<open>exists\<close> answers \<^verbatim>\<open>false\<close>
  for a key then the \<^verbatim>\<open>getItem\<close> of release 1.3.1 answers with \<^verbatim>\<open>result\<close> false and the error
  \<^verbatim>\<open>"Cache key undefined"\<close>, and the store is as it was.
\<close>

theorem key_not_found:
  assumes "lsExists l" and "exists l k = Inr False"
  shows "getItem env now l k =
     (Inr \<lparr>cids = prepareCids k, data = JStr [], error = Some ''Cache key undefined'',
           result = False, expires = Some (- 1)\<rparr>, l)"
  using assms by (cases l) (simp_all add: exists_def getItem_Some lsExists_def)

theorem key_not_found_witness:
  "lsExists (Some [(''cachier:data:a'', ''1'')])
   \<and> exists (Some [(''cachier:data:a'', ''1'')]) ''k'' = Inr False
   \<and> getItem (browser 1000) 5 (Some [(''cachier:data:a'', ''1'')]) ''k'' =
       (Inr \<lparr>cids = prepareCids ''k'', data = JStr [], error = Some ''Cache key undefined'',
             result = False, expires = Some (- 1)\<rparr>, Some [(''cachier:data:a'', ''1'')])"
proof -
  have h1: "lsExists (Some [(''cachier:data:a'', ''1'')])"
    by code_simp
  have h2: "exists (Some [(''cachier:data:a'', ''1'')]) ''k'' = Inr False"
    by code_simp
  from h1 h2 key_not_found [OF h1 h2] show ?thesis
    by blast
qed

subsection \<open>C5: what a failed write leaves in the store\<close>

text \<open>
  Claim C5 asks that \<^verbatim>\<open>setItem\<close> write all three entries or none. The three writes are three
  calls of the store, and nothing undoes a write when a later one is refused: in a store
  with room for 40 characters, \<^verbatim>\<open>setItem("k", true, 1000)\<close> writes the data and the type,
  is refused the expiry, and answers \<^verbatim>\<open>false\<close> with the two entries left behind.
\<close>

theorem partial_write_counterexample:
  "setItem (browser 40) 0 (Some []) (JStr ''k'') (JBool True) (Some 1000) =
     (Inr False, Some [(''cachier:data:k'', ''true''), (''cachier:type:k'', ''boolean'')])
   \<and> Some [(''cachier:data:k'', ''true''), (''cachier:type:k'', ''boolean'')] \<noteq> Some []
   \<and> ls_getItem (Some [(''cachier:data:k'', ''true''), (''cachier:type:k'', ''boolean'')])
        ''cachier:expire:k'' = Inr None"
  by code_simp

text \<open>
  Claim C5, amended. For a clock reading and a TTL whose expiry is a safe integer,
  \<^verbatim>\<open>setItem\<close> writes the data, the type tag and the expiry in this order, and a call ends
  in exactly one of these ways. The store is unchanged and the answer is \<^verbatim>\<open>false\<close>: the key
  is not a string; or the value is a function; or the converted value is not a string; or
  there is no store; or the store refused the data. The store is unchanged and the call
  raises: the conversion of the value raised. The data is written and the answer is
  \<^verbatim>\<open>false\<close>: the store took the data and refused the type tag. The data and the type tag
  are written and the answer is \<^verbatim>\<open>false\<close>: the store took both and refused the expiry.
  All three are written and the answer is \<^verbatim>\<open>true\<close>: the store took them all.
\<close>

theorem setItem_store_states:
  assumes call: "setItem env now l cacheId dat expire = (r, l')"
    and clock: "clock_reading now"
    and ttl: "safe_integer (or_default expire defaultTime)"
    and expiry: "safe_integer (or_default expire defaultTime + now)"
  shows "(typeof cacheId \<noteq> ''string'' \<and> r = Inr False \<and> l' = l)
       \<or> (typeof cacheId = ''string'' \<and> typeof dat = ''function'' \<and> r = Inr False \<and> l' = l)
       \<or> (typeof cacheId = ''string''
            \<and> (\<exists>e. setItem_switch env (typeof dat) dat = Raise e \<and> r = Inl e) \<and> l' = l)
       \<or> (typeof cacheId = ''string''
            \<and> (\<exists>d. setItem_switch env (typeof dat) dat = Continue d \<and> typeof d \<noteq> ''string'')
            \<and> r = Inr False \<and> l' = l)
       \<or> (\<exists>key s. cacheId = JStr key
            \<and> setItem_switch env (typeof dat) dat = Continue (JStr s)
            \<and> ((l = None \<and> r = Inr False \<and> l' = l)
               \<or> (\<exists>st. l = Some st
                    \<and> ((quotaExceeded env st (cid_data (prepareCids key)) s
                          \<and> r = Inr False \<and> l' = l)
                       \<or> (\<not> quotaExceeded env st (cid_data (prepareCids key)) s
                          \<and> quotaExceeded env (written st key s (typeof dat) (expiryText now expire) 1)
                                (cid_type (prepareCids key)) (typeof dat)
                          \<and> r = Inr False
                          \<and> l' = Some (written st key s (typeof dat) (expiryText now expire) 1))
                       \<or> (\<not> quotaExceeded env st (cid_data (prepareCids key)) s
                          \<and> \<not> quotaExceeded env (written st key s (typeof dat) (expiryText now expire) 1)
                                (cid_type (prepareCids key)) (typeof dat)
                          \<and> quotaExceeded env (written st key s (typeof dat) (expiryText now expire) 2)
                                (cid_expire (prepareCids key)) (expiryText now expire)
                          \<and> r = Inr False
                          \<and> l' = Some (written st key s (typeof dat) (expiryText now expire) 2))
                       \<or> (\<not> quotaExceeded env st (cid_data (prepareCids key)) s
                          \<and> \<not> quotaExceeded env (written st key s (typeof dat) (expiryText now expire) 1)
                                (cid_type (prepareCids key)) (typeof dat)
                          \<and> \<not> quotaExceeded env (written st key s (typeof dat) (expiryText now expire) 2)
                                (cid_expire (prepareCids key)) (expiryText now expire)
                          \<and> r = Inr True
                          \<and> l' = Some (written st key s (typeof dat) (expiryText now expire) 3))))))"
proof (cases cacheId)
  case (JStr key)
  show ?thesis
  proof (cases "setItem_switch env (typeof dat) dat")
    case (Return b)
    with call JStr show ?thesis
      by (simp add: setItem_unfold setItem_switch_function)
  next
    case (Raise e)
    with call JStr show ?thesis
      by (auto simp: setItem_unfold)
  next
    case (Continue d)
    show ?thesis
    proof (cases "typeof d = ''string''")
      case False
      then have "\<forall>s. d \<noteq> JStr s"
        by (simp add: typeof_string)
      with call JStr Continue False show ?thesis
        by (cases d) (auto simp: setItem_unfold)
    next
      case True
      then obtain s where d: "d = JStr s"
        by (auto simp: typeof_string)
      show ?thesis
      proof (cases l)
        case None
        with call JStr Continue d show ?thesis
          by (auto simp: setItem_unfold)
      next
        case (Some st)
        with call JStr Continue d show ?thesis
          by (auto simp: setItem_unfold split: if_splits)
      qed
    qed
  qed
qed (use call in \<open>auto simp: setItem_def\<close>)

theorem setItem_store_states_witness:
  "setItem (browser 40) 0 (Some []) (JStr ''k'') (JBool True) (Some 1000) =
     (Inr False, Some [(''cachier:data:k'', ''true''), (''cachier:type:k'', ''boolean'')])
   \<and> clock_reading 0 \<and> safe_integer (or_default (Some 1000) defaultTime)
   \<and> safe_integer (or_default (Some 1000) defaultTime + 0)
   \<and> setItem_switch (browser 40) (typeof (JBool True :: jsnum jsval)) (JBool True) =
       Continue (JStr ''true'')
   \<and> \<not> quotaExceeded (browser 40) [] ''cachier:data:k'' ''true''
   \<and> \<not> quotaExceeded (browser 40) (written [] ''k'' ''true'' ''boolean'' (expiryText 0 (Some 1000)) 1)
        ''cachier:type:k'' ''boolean''
   \<and> quotaExceeded (browser 40) (written [] ''k'' ''true'' ''boolean'' (expiryText 0 (Some 1000)) 2)
        ''cachier:expire:k'' (expiryText 0 (Some 1000))
   \<and> Some [(''cachier:data:k'', ''true''), (''cachier:type:k'', ''boolean'')] =
       Some (written [] ''k'' ''true'' ''boolean'' (expiryText 0 (Some 1000)) 2)"
proof -
  have h: "setItem (browser 40) 0 (Some []) (JStr ''k'') (JBool True) (Some 1000) =
     (Inr False, Some [(''cachier:data:k'', ''true''), (''cachier:type:k'', ''boolean'')])"
    by code_simp
  have c: "clock_reading 0"
    by (simp add: clock_reading_def)
  have t: "safe_integer (or_default (Some 1000) defaultTime)"
    by (simp add: safe_integer_def or_default_def)
  have e: "safe_integer (or_default (Some 1000) defaultTime + 0)"
    by (simp add: safe_integer_def or_default_def)
  have w1: "written [] ''k'' ''true'' ''boolean'' (expiryText 0 (Some 1000)) (Suc 0) =
            [(''cachier:data:k'', ''true'')]"
    by code_simp
  have w2: "written [] ''k'' ''true'' ''boolean'' (expiryText 0 (Some 1000)) 2 =
            [(''cachier:data:k'', ''true''), (''cachier:type:k'', ''boolean'')]"
    by code_simp
  have sw: "setItem_switch (browser 40) ''boolean'' (JBool True) = Continue (JStr ''true'')"
    by code_simp
  from setItem_store_states [OF h c t e] h c t e show ?thesis
    by (auto simp: w1 w2 sw prepareCids_plain)
qed

subsection \<open>C6: the time that is left\<close>

text \<open>
  Claim C6 asks for \<^verbatim>\<open>expires = -1\<close> in the result of every failing \<^verbatim>\<open>getItem\<close>. The field is
  set as soon as the item is found to be before its expiry, ahead of the switch on the type
  tag, and the two failing branches of the switch leave it: an item with the tag
  \<^verbatim>\<open>function\<close> that expires at 100, read at 40, fails with \<^verbatim>\<open>expires = 60\<close>.
\<close>

theorem expires_counterexample:
  "getItem (browser 1000) 40
     (Some [(''cachier:data:k'', ''x''), (''cachier:type:k'', ''function''),
            (''cachier:expire:k'', ''100'')]) ''k'' =
     (Inr \<lparr>cids = prepareCids ''k'', data = JStr [],
           error = Some ''Function was saved, unable to retrieve the value'',
           result = False, expires = Some 60\<rparr>,
      Some [(''cachier:data:k'', ''x''), (''cachier:type:k'', ''function''),
            (''cachier:expire:k'', ''100'')])
   \<and> Some (60 :: int) \<noteq> Some (- 1)"
  by code_simp

text \<open>
  Claim C6, amended. Let the clock reading be a safe integer from the epoch on, and the
  stored expiry, if it is a number, a safe integer. Whenever \<^verbatim>\<open>getItem\<close> answers a result: if
  the item exists and the clock is before the stored expiry, \<^verbatim>\<open>expires\<close> is the stored expiry
  minus the clock reading, be the result a success or the failure of a \<^verbatim>\<open>function\<close> tag or
  of an unknown tag; in every other case (no store, key not found, item expired) the
  result is a failure and \<^verbatim>\<open>expires\<close> is \<open>-1\<close>. So a successful result always carries the
  stored expiry minus the clock reading.
\<close>

theorem expires_field:
  assumes get: "getItem env now l k = (Inr r, l')"
    and clock: "clock_reading now"
    and bounded: "\<forall>e. storedExpiry l k = Some e \<longrightarrow> safe_integer e"
  shows "(live now l k \<longrightarrow>
            (\<exists>e. storedExpiry l k = Some e \<and> now < e \<and> expires r = Some (e - now)))
       \<and> (\<not> live now l k \<longrightarrow> expires r = Some (- 1) \<and> result r = False)"
proof (cases l)
  case None
  with get show ?thesis by (auto simp: getItem_None live_None)
next
  case (Some st)
  show ?thesis
  proof (cases "live now l k")
    case True
    then obtain e where e: "storedExpiry l k = Some e" "now < e"
      by (auto simp: live_def jsint_less_def split: option.splits)
    from True Some get
    have "getItem_switch env
           \<lparr>cids = prepareCids k, data = JStr [], error = None, result = False,
            expires = jsint_sub (storedExpiry (Some st) k) now\<rparr>
           (map_of st (cid_type (prepareCids k))) (map_of st (cid_data (prepareCids k))) = Inr r"
      by (auto simp: getItem_Some live_Some)
    from getItem_switch_fields(1) [OF this] e Some True show ?thesis
      by (simp add: jsint_sub_def)
  next
    case False
    with Some get show ?thesis
      by (auto simp: getItem_Some live_Some split: if_splits)
  qed
qed

theorem expires_field_witness:
  "getItem (browser 1000) 40
     (Some [(''cachier:data:k'', ''5''), (''cachier:type:k'', ''number''),
            (''cachier:expire:k'', ''100'')]) ''k'' =
     (Inr \<lparr>cids = prepareCids ''k'', data = JNum (Num 5), error = None, result = True,
           expires = Some 60\<rparr>,
      Some [(''cachier:data:k'', ''5''), (''cachier:type:k'', ''number''),
            (''cachier:expire:k'', ''100'')])
   \<and> clock_reading 40
   \<and> live 40 (Some [(''cachier:data:k'', ''5''), (''cachier:type:k'', ''number''),
                     (''cachier:expire:k'', ''100'')]) ''k''
   \<and> storedExpiry (Some [(''cachier:data:k'', ''5''), (''cachier:type:k'', ''number''),
                          (''cachier:expire:k'', ''100'')]) ''k'' = Some 100
   \<and> safe_integer 100"
proof -
  let ?l = "Some [(''cachier:data:k'', ''5''), (''cachier:type:k'', ''number''),
                  (''cachier:expire:k'', ''100'')]"
  have h: "getItem (browser 1000) 40 ?l ''k'' =
     (Inr \<lparr>cids = prepareCids ''k'', data = JNum (Num 5), error = None, result = True,
           expires = Some 60\<rparr>, ?l)"
    by code_simp
  have c: "clock_reading 40"
    by (simp add: clock_reading_def)
  have lv: "live 40 ?l ''k''"
    by code_simp
  have se: "storedExpiry ?l ''k'' = Some 100"
    by code_simp
  have s: "safe_integer 100"
    by (simp add: safe_integer_def)
  from se s have b: "\<forall>e. storedExpiry ?l ''k'' = Some e \<longrightarrow> safe_integer e"
    by simp
  from h c lv s expires_field [OF h c b] show ?thesis
    by auto
qed

subsection \<open>C7: functions are not stored\<close>

text \<open>
  Claim C7. For every key and every function, \<^verbatim>\<open>setItem\<close> answers \<^verbatim>\<open>false\<close>, and the store,
  an earlier item of the key included, is as it was.
\<close>

theorem function_rejected:
  "setItem env now l cacheId (JFun f) expire = (Inr False, l)"
  by (cases cacheId) (simp_all add: setItem_def setItem_switch_def)

subsection \<open>C8: without a store\<close>

text \<open>
  Claim C8 is made of the \<^verbatim>\<open>getItem\<close> of release 1.2 as well, which has neither the test of
  \<^verbatim>\<open>lsExists\<close> nor an \<^verbatim>\<open>exists\<close>: when \<^verbatim>\<open>localStorage\<close> is undefined, its first statement
  calls \<^verbatim>\<open>getItem\<close> on \<^verbatim>\<open>undefined\<close> and the \<^verbatim>\<open>TypeError\<close> reaches the caller.
\<close>

theorem unavailable_store_counterexample:
  "\<not> lsExists None
   \<and> getItem12 (browser 1000) 0 None ''k'' = (Inl TypeError, None)"
  by code_simp

text \<open>
  Claim C8, amended to release 1.3.1. When \<^verbatim>\<open>window.localStorage\<close> is undefined, the
  \<^verbatim>\<open>exists\<close> of release 1.3.1 answers \<^verbatim>\<open>false\<close> and its \<^verbatim>\<open>getItem\<close> answers with \<^verbatim>\<open>result\<close>
  false and the error \<^verbatim>\<open>"The localStorage object is not supported"\<close>; neither raises.
\<close>

theorem unavailable_store:
  "exists None k = Inr False
   \<and> getItem env now None k =
       (Inr \<lparr>cids = prepareCids k, data = JStr [],
             error = Some ''The localStorage object is not supported'',
             result = False, expires = Some (- 1)\<rparr>, None)"
  by (simp add: exists_def getItem_None)

subsection \<open>C9: the stored tag is the type of the value\<close>

text \<open>
  Claim C9. After a successful \<^verbatim>\<open>setItem\<close> the type key of the item holds \<^verbatim>\<open>typeof\<close> of the
  value as it was handed in, and a \<^verbatim>\<open>getItem\<close> before the expiry runs its switch on that tag
  and on the stored data (for clock readings from the epoch on, a TTL and an expiry that
  are safe integers). If a \<^verbatim>\<open>getItem\<close> of the item ends in the branch of the unknown tag, then
  the type of the value is none of \<^verbatim>\<open>object\<close>, \<^verbatim>\<open>number\<close>, \<^verbatim>\<open>boolean\<close>, \<^verbatim>\<open>string\<close> (nor
  \<^verbatim>\<open>function\<close>) and the stored data is what \<^verbatim>\<open>toString\<close> made of the value in the default
  branch of \<^verbatim>\<open>setItem\<close>. And in any store whatever, a \<^verbatim>\<open>getItem\<close> that ends in that branch
  has read a tag other than these five, or no tag.
\<close>

theorem stored_tag_is_typeof:
  assumes "setItem env now l cacheId v expire = (Inr True, l')"
  shows "(\<exists>key s. cacheId = JStr key
       \<and> ls_getItem l' (cid_type (prepareCids key)) = Inr (Some (typeof v))
       \<and> ls_getItem l' (cid_data (prepareCids key)) = Inr (Some s)
       \<and> setItem_switch env (typeof v) v = Continue (JStr s)
       \<and> (\<forall>now'. clock_reading now \<and> clock_reading now'
              \<and> safe_integer (or_default expire defaultTime)
              \<and> safe_integer (or_default expire defaultTime + now)
              \<and> now' < or_default expire defaultTime + now \<longrightarrow>
             getItem env now' l' key =
               (getItem_switch env
                  \<lparr>cids = prepareCids key, data = JStr [], error = None, result = False,
                   expires = Some (or_default expire defaultTime + now - now')\<rparr>
                  (Some (typeof v)) (Some s), l'))
       \<and> (\<forall>now' r l''. getItem env now' l' key = (Inr r, l'')
              \<and> error r = Some ''Unknown data type was saved'' \<longrightarrow>
             typeof v \<notin> {''object'', ''number'', ''boolean'', ''string'', ''function''}
             \<and> toString_method env v = Inr s))
     \<and> (\<forall>now0 l0 k0 r0 l1. getItem env now0 l0 k0 = (Inr r0, l1)
            \<and> error r0 = Some ''Unknown data type was saved'' \<longrightarrow>
           (\<exists>tag. ls_getItem l0 (cid_type (prepareCids k0)) = Inr tag
              \<and> tag \<notin> {Some ''object'', Some ''number'', Some ''boolean'', Some ''string'',
                         Some ''function''}))"
proof -
  from assms obtain key s st where
    k: "cacheId = JStr key" and sw: "setItem_switch env (typeof v) v = Continue (JStr s)"
    and l': "l' = Some (written st key s (typeof v) (expiryText now expire) 3)"
    by (auto elim: setItem_True)
  have ty: "ls_getItem l' (cid_type (prepareCids key)) = Inr (Some (typeof v))"
    and da: "ls_getItem l' (cid_data (prepareCids key)) = Inr (Some s)"
    by (simp_all add: l' map_of_written3)
  have get: "\<forall>now'. clock_reading now \<and> clock_reading now'
              \<and> safe_integer (or_default expire defaultTime)
              \<and> safe_integer (or_default expire defaultTime + now)
              \<and> now' < or_default expire defaultTime + now \<longrightarrow>
             getItem env now' l' key =
               (getItem_switch env
                  \<lparr>cids = prepareCids key, data = JStr [], error = None, result = False,
                   expires = Some (or_default expire defaultTime + now - now')\<rparr>
                  (Some (typeof v)) (Some s), l')"
    using getItem_after_setItem [of _ expire now env st key s "typeof v"] l' by simp
  have unk: "typeof v \<notin> {''object'', ''number'', ''boolean'', ''string'', ''function''}
             \<and> toString_method env v = Inr s"
    if g: "getItem env now' l' key = (Inr r, l'')"
      and e: "error r = Some ''Unknown data type was saved''"
    for now' r l''
  proof -
    from g e l' have sw': "getItem_switch env
           \<lparr>cids = prepareCids key, data = JStr [], error = None, result = False,
            expires = jsint_sub (storedExpiry l' key) now'\<rparr> (Some (typeof v)) (Some s) = Inr r"
      by (auto simp: getItem_Some map_of_written3 split: if_splits)
    with e have out: "typeof v \<notin> {''object'', ''number'', ''boolean'', ''string'', ''function''}"
      by (auto simp: getItem_switch_def split: if_splits sum.splits)
    with sw have "toString_method env v = Inr s"
      by (auto simp: setItem_switch_def split: sum.splits)
    with out show ?thesis by blast
  qed
  have foreign: "\<forall>now0 l0 k0 r0 l1. getItem env now0 l0 k0 = (Inr r0, l1)
            \<and> error r0 = Some ''Unknown data type was saved'' \<longrightarrow>
           (\<exists>tag. ls_getItem l0 (cid_type (prepareCids k0)) = Inr tag
              \<and> tag \<notin> {Some ''object'', Some ''number'', Some ''boolean'', Some ''string'',
                         Some ''function''})"
    using unknown_tag_is_foreign [of env] by (intro allI impI) (elim conjE)
  have unk': "\<forall>now' r l''. getItem env now' l' key = (Inr r, l'')
              \<and> error r = Some ''Unknown data type was saved'' \<longrightarrow>
             typeof v \<notin> {''object'', ''number'', ''boolean'', ''string'', ''function''}
             \<and> toString_method env v = Inr s"
    using unk by (intro allI impI) (elim conjE)
  show ?thesis
    by (intro conjI exI [of _ key] exI [of _ s] k ty da sw get unk' foreign)
qed

theorem stored_tag_is_typeof_witness:
  "setItem (browser 1000) 0 (Some []) (JStr ''k'') (JSymbol ''s'') None =
     (Inr True, Some [(''cachier:data:k'', ''Symbol(s)''), (''cachier:type:k'', ''symbol''),
                      (''cachier:expire:k'', ''3600000'')])
   \<and> ls_getItem (Some [(''cachier:data:k'', ''Symbol(s)''), (''cachier:type:k'', ''symbol''),
                        (''cachier:expire:k'', ''3600000'')]) (cid_type (prepareCids ''k'')) =
       Inr (Some (typeof (JSymbol ''s'' :: jsnum jsval)))
   \<and> clock_reading 0 \<and> clock_reading 5
   \<and> safe_integer (or_default None defaultTime)
   \<and> safe_integer (or_default None defaultTime + 0)
   \<and> 5 < or_default None defaultTime + 0
   \<and> getItem (browser 1000) 5
       (Some [(''cachier:data:k'', ''Symbol(s)''), (''cachier:type:k'', ''symbol''),
              (''cachier:expire:k'', ''3600000'')]) ''k'' =
       (getItem_switch (browser 1000)
          \<lparr>cids = prepareCids ''k'', data = JStr [], error = None, result = False,
           expires = Some (or_default None defaultTime + 0 - 5)\<rparr>
          (Some (typeof (JSymbol ''s'' :: jsnum jsval))) (Some ''Symbol(s)''),
        Some [(''cachier:data:k'', ''Symbol(s)''), (''cachier:type:k'', ''symbol''),
              (''cachier:expire:k'', ''3600000'')])
   \<and> getItem (browser 1000) 5
       (Some [(''cachier:data:k'', ''Symbol(s)''), (''cachier:type:k'', ''symbol''),
              (''cachier:expire:k'', ''3600000'')]) ''k'' =
       (Inr \<lparr>cids = prepareCids ''k'', data = JStr [],
             error = Some ''Unknown data type was saved'', result = False,
             expires = Some 3599995\<rparr>,
        Some [(''cachier:data:k'', ''Symbol(s)''), (''cachier:type:k'', ''symbol''),
              (''cachier:expire:k'', ''3600000'')])
   \<and> typeof (JSymbol ''s'' :: jsnum jsval)
        \<notin> {''object'', ''number'', ''boolean'', ''string'', ''function''}"
proof -
  let ?l = "Some [(''cachier:data:k'', ''Symbol(s)''), (''cachier:type:k'', ''symbol''),
                  (''cachier:expire:k'', ''3600000'')]"
  let ?r = "\<lparr>cids = prepareCids ''k'', data = JStr [],
             error = Some ''Unknown data type was saved'', result = False,
             expires = Some 3599995\<rparr> :: jsnum myData"
  have h: "setItem (browser 1000) 0 (Some []) (JStr ''k'') (JSymbol ''s'') None = (Inr True, ?l)"
    by code_simp
  have g: "getItem (browser 1000) 5 ?l ''k'' = (Inr ?r, ?l)"
    by code_simp
  have c0: "clock_reading 0" and c5: "clock_reading 5"
    by (simp_all add: clock_reading_def)
  have t: "safe_integer (or_default None defaultTime)"
    and x: "safe_integer (or_default None defaultTime + 0)"
    and b: "5 < or_default None defaultTime + 0"
    by (simp_all add: safe_integer_def or_default_def defaultTime_def)
  from stored_tag_is_typeof [OF h, THEN conjunct1] obtain key where
    "\<exists>s. JStr ''k'' = (JStr key :: jsnum jsval)
       \<and> ls_getItem ?l (cid_type (prepareCids key)) = Inr (Some (typeof (JSymbol ''s'' :: jsnum jsval)))
       \<and> ls_getItem ?l (cid_data (prepareCids key)) = Inr (Some s)
       \<and> setItem_switch (browser 1000) (typeof (JSymbol ''s'' :: jsnum jsval)) (JSymbol ''s'') = Continue (JStr s)
       \<and> (\<forall>now'. clock_reading 0 \<and> clock_reading now'
              \<and> safe_integer (or_default None defaultTime)
              \<and> safe_integer (or_default None defaultTime + 0)
              \<and> now' < or_default None defaultTime + 0 \<longrightarrow>
             getItem (browser 1000) now' ?l key =
               (getItem_switch (browser 1000)
                  \<lparr>cids = prepareCids key, data = JStr [], error = None, result = False,
                   expires = Some (or_default None defaultTime + 0 - now')\<rparr>
                  (Some (typeof (JSymbol ''s'' :: jsnum jsval))) (Some s), ?l))
       \<and> (\<forall>now' r l''. getItem (browser 1000) now' ?l key = (Inr r, l'')
              \<and> error r = Some ''Unknown data type was saved'' \<longrightarrow>
             typeof (JSymbol ''s'' :: jsnum jsval) \<notin> {''object'', ''number'', ''boolean'', ''string'', ''function''}
             \<and> toString_method (browser 1000) (JSymbol ''s'') = Inr s)" ..
  then obtain s where
    k: "JStr ''k'' = (JStr key :: jsnum jsval)"
    and ty: "ls_getItem ?l (cid_type (prepareCids key)) = Inr (Some (typeof (JSymbol ''s'' :: jsnum jsval)))"
    and da: "ls_getItem ?l (cid_data (prepareCids key)) = Inr (Some s)"
    and lv: "\<forall>now'. clock_reading 0 \<and> clock_reading now'
              \<and> safe_integer (or_default None defaultTime)
              \<and> safe_integer (or_default None defaultTime + 0)
              \<and> now' < or_default None defaultTime + 0 \<longrightarrow>
             getItem (browser 1000) now' ?l key =
               (getItem_switch (browser 1000)
                  \<lparr>cids = prepareCids key, data = JStr [], error = None, result = False,
                   expires = Some (or_default None defaultTime + 0 - now')\<rparr>
                  (Some (typeof (JSymbol ''s'' :: jsnum jsval))) (Some s), ?l)"
    and unk: "\<forall>now' r l''. getItem (browser 1000) now' ?l key = (Inr r, l'')
              \<and> error r = Some ''Unknown data type was saved'' \<longrightarrow>
             typeof (JSymbol ''s'' :: jsnum jsval) \<notin> {''object'', ''number'', ''boolean'', ''string'', ''function''}
             \<and> toString_method (browser 1000) (JSymbol ''s'') = Inr s"
    by (elim exE conjE)
  from k have key: "key = ''k''"
    by simp
  from da have s: "s = ''Symbol(s)''"
    by (simp add: key prepareCids_plain)
  have "clock_reading 0 \<and> clock_reading 5
      \<and> safe_integer (or_default None defaultTime)
      \<and> safe_integer (or_default None defaultTime + 0)
      \<and> 5 < or_default None defaultTime + 0"
    by (intro conjI c0 c5 t x b)
  from lv [rule_format, OF this]
  have live_read: "getItem (browser 1000) 5 ?l ''k'' =
       (getItem_switch (browser 1000)
          \<lparr>cids = prepareCids ''k'', data = JStr [], error = None, result = False,
           expires = Some (or_default None defaultTime + 0 - 5)\<rparr>
          (Some (typeof (JSymbol ''s'' :: jsnum jsval))) (Some ''Symbol(s)''), ?l)"
    unfolding key s .
  have e: "error ?r = Some ''Unknown data type was saved''"
    by simp
  have "getItem (browser 1000) 5 ?l key = (Inr ?r, ?l)
      \<and> error ?r = Some ''Unknown data type was saved''"
    unfolding key using g e by (rule conjI)
  from unk [rule_format, OF this]
  have out: "typeof (JSymbol ''s'' :: jsnum jsval)
      \<notin> {''object'', ''number'', ''boolean'', ''string'', ''function''}"
    by (rule conjunct1)
  from h ty [unfolded key] c0 c5 t x b live_read g out show ?thesis
    by (intro conjI)
qed

subsection \<open>C10: the value undefined\<close>

text \<open>
  Claim C10. For every string key, \<^verbatim>\<open>setItem\<close> with the value \<^verbatim>\<open>undefined\<close> does not answer a
  boolean: the type of the value is \<^verbatim>\<open>"undefined"\<close>, the switch takes its default branch,
  the call of \<^verbatim>\<open>toString\<close> on the value raises a \<^verbatim>\<open>TypeError\<close> outside the \<^verbatim>\<open>try\<close>, and the
  error reaches the caller. The store is as it was.
\<close>

theorem undefined_raises:
  "typeof (JUndefined :: 'n jsval) = ''undefined''
   \<and> toString_method env (JUndefined :: 'n jsval) = Inl TypeError
   \<and> setItem_switch env ''undefined'' (JUndefined :: 'n jsval) = Raise TypeError
   \<and> setItem env now l (JStr k) JUndefined expire = (Inl TypeError, l)"
  by (simp add: setItem_def setItem_switch_def toString_method_def)

end
